theory Spec2Isabelle
  imports Main
begin

section \<open>Python string primitives used by sub2srt.py\<close>

text \<open>
  A Python \<open>str\<close> is a sequence of code points; the model uses \<^typ>\<open>string\<close>, whose
  characters are the code points 0..255, and \<^const>\<open>length\<close> counts code points.
\<close>

definition NL :: char where
  "NL = CHR 0x0A"

text \<open>
  \<open>str.isspace\<close> on one character, which is also what \<open>\\s\<close> matches in a \<open>str\<close>
  pattern and what \<open>str.strip()\<close> removes: among the code points below 256 these are
  TAB, LF, VT, FF, CR, the separators 0x1C..0x1F, SPACE, NEL (0x85) and NBSP (0xA0).
\<close>

definition isspace :: "char \<Rightarrow> bool" where
  "isspace c = (let n = (of_char c :: nat) in
     (9 \<le> n \<and> n \<le> 13) \<or> (28 \<le> n \<and> n \<le> 32) \<or> n = 133 \<or> n = 160)"

text \<open>\<open>s.strip()\<close>: leading and trailing whitespace removed.\<close>

definition strip :: "string \<Rightarrow> string" where
  "strip s = rev (dropWhile isspace (rev (dropWhile isspace s)))"

text \<open>
  \<open>s.split(sep)\<close> for a one-character separator: every occurrence splits, and the
  result always has at least one element.
\<close>

fun split_on :: "char \<Rightarrow> string \<Rightarrow> string list" where
  "split_on sep [] = [[]]"
| "split_on sep (c # cs) =
     (if c = sep then [] # split_on sep cs
      else (case split_on sep cs of
              [] \<Rightarrow> [[c]]
            | p # ps \<Rightarrow> (c # p) # ps))"

text \<open>\<open>s.split("\\n", 1)\<close>: at most one split, at the first newline.\<close>

definition split_first_nl :: "string \<Rightarrow> string list" where
  "split_first_nl s =
     (if NL \<in> set s
      then [takeWhile (\<lambda>c. c \<noteq> NL) s, tl (dropWhile (\<lambda>c. c \<noteq> NL) s)]
      else [s])"

text \<open>\<open>s.ljust(n, "0")\<close>: padded on the right with zeros up to length \<open>n\<close>.\<close>

definition ljust0 :: "nat \<Rightarrow> string \<Rightarrow> string" where
  "ljust0 n s = s @ replicate (n - length s) (CHR ''0'')"

text \<open>\<open>sep.join(parts)\<close>.\<close>

fun join :: "string \<Rightarrow> string list \<Rightarrow> string" where
  "join sep [] = []"
| "join sep [p] = p"
| "join sep (p # q # ps) = p @ sep @ join sep (q # ps)"

text \<open>The decimal rendering of a natural number, as \<open>f"{idx}"\<close> produces it.\<close>

definition digit_char :: "nat \<Rightarrow> char" where
  "digit_char d = ''0123456789'' ! d"

fun str_nat :: "nat \<Rightarrow> string" where
  "str_nat n = (if n < 10 then [digit_char n] else str_nat (n div 10) @ [digit_char (n mod 10)])"

declare str_nat.simps [simp del]

text \<open>
  \<open>re.split(r"\\n\\s*\\n", content)\<close>. A match starts at a newline; the greedy \<open>\\s*\<close> takes
  the whole run of whitespace after it and backtracks to the last newline of that run. So
  \<open>blank_run rest\<close>, for the text after a newline, is the length of the match's remainder:
  up to and including the last newline of the leading whitespace of \<open>rest\<close>, when there is one.
\<close>

definition blank_run :: "string \<Rightarrow> nat option" where
  "blank_run rest =
     (let ws = takeWhile isspace rest in
      if NL \<in> set ws
      then Some (length ws - length (takeWhile (\<lambda>c. c \<noteq> NL) (rev ws)))
      else None)"

text \<open>
  The scan is leftmost-first: at each position a match is tried, the text before it is
  closed as a piece and the scan resumes after the match; \<open>cur\<close> holds the piece being
  read, reversed.
\<close>

function re_split_aux :: "string \<Rightarrow> string \<Rightarrow> string list" where
  "re_split_aux cur [] = [rev cur]"
| "re_split_aux cur (c # rest) =
     (if c = NL then
        (case blank_run rest of
           Some k \<Rightarrow> rev cur # re_split_aux [] (drop k rest)
         | None \<Rightarrow> re_split_aux (c # cur) rest)
      else re_split_aux (c # cur) rest)"
  by pat_completeness auto
termination
  by (relation "measure (\<lambda>(cur, s). length s)") auto

definition re_split_blank :: "string \<Rightarrow> string list" where
  "re_split_blank content = re_split_aux [] content"

section \<open>The time formatter\<close>

text \<open>
  Python exceptions the program can meet. Unpacking a list of the wrong length raises
  \<open>ValueError\<close>: \<open>NotEnoughValues expected got\<close> or \<open>TooManyValues expected got\<close> (the
  message of the second names the length found only in recent Python versions). The
  others come from the file system calls and carry the path.
\<close>

datatype pyerror =
    NotEnoughValues nat nat
  | TooManyValues nat nat
  | FileNotFoundError "string list"
  | IsADirectoryError "string list"
  | NotADirectoryError "string list"
  | FileExistsError "string list"
  | UnicodeDecodeError "string list"

text \<open>\<open>a, b = xs\<close> and \<open>a, b, c = xs\<close>.\<close>

fun unpack2 :: "'a list \<Rightarrow> pyerror + ('a \<times> 'a)" where
  "unpack2 [a, b] = Inr (a, b)"
| "unpack2 xs =
     (if length xs < 2 then Inl (NotEnoughValues 2 (length xs))
      else Inl (TooManyValues 2 (length xs)))"

fun unpack3 :: "'a list \<Rightarrow> pyerror + ('a \<times> 'a \<times> 'a)" where
  "unpack3 [a, b, c] = Inr (a, b, c)"
| "unpack3 xs =
     (if length xs < 3 then Inl (NotEnoughValues 3 (length xs))
      else Inl (TooManyValues 3 (length xs)))"

definition format_time_str :: "string \<Rightarrow> pyerror + string" where
  "format_time_str time_str =
     (let time_str = (if CHR ''.'' \<notin> set time_str then time_str @ ''.0000000'' else time_str) in
      case unpack3 (split_on (CHR '':'') time_str) of
        Inl e \<Rightarrow> Inl e
      | Inr (hh, mm, ss_ms) \<Rightarrow>
          (case unpack2 (split_on (CHR ''.'') ss_ms) of
             Inl e \<Rightarrow> Inl e
           | Inr (ss, ms) \<Rightarrow>
               (let ms_3 = ljust0 3 (take 3 ms) in
                Inr (hh @ '':'' @ mm @ '':'' @ ss @ '','' @ ms_3))))"

section \<open>The block parser\<close>

text \<open>
  What the program prints, one constructor per \<open>print\<close> call with the values its
  f-string interpolates: the warning carries the block's index and \<open>block[:50]\<close>.
\<close>

datatype message =
    BlockWarning nat string
  | ConvertOk "string list" "string list"
  | ConvertFailed "string list" pyerror
  | NoSubFiles "string list"
  | FoundSubFiles nat
  | InvalidPath "string list"

text \<open>
  \<open>[block.strip() for block in re.split(r"\\n\\s*\\n", content) if block.strip()]\<close>
\<close>

definition subtitle_blocks :: "string \<Rightarrow> string list" where
  "subtitle_blocks content =
     map strip (filter (\<lambda>block. strip block \<noteq> []) (re_split_blank content))"

text \<open>The f-string that serialises one block.\<close>

definition srt_block :: "nat \<Rightarrow> string \<Rightarrow> string \<Rightarrow> string \<Rightarrow> string" where
  "srt_block idx start_srt end_srt text_lines =
     str_nat idx @ [NL] @ start_srt @ '' --> '' @ end_srt @ [NL] @ strip text_lines @ [NL]"

text \<open>
  One iteration of the loop over \<open>enumerate(subtitle_blocks, 1)\<close>: the block is skipped
  with a warning, or appended to \<open>srt_content\<close>, or an exception leaves the loop.
\<close>

datatype block_outcome = Skipped message | Appended string

definition convert_block :: "nat \<Rightarrow> string \<Rightarrow> pyerror + block_outcome" where
  "convert_block idx block =
     (let lines = split_first_nl block in
      if length lines < 2 then Inr (Skipped (BlockWarning idx (take 50 block)))
      else
        (let time_line = lines ! 0; text_lines = lines ! 1 in
         case unpack2 (map strip (split_on (CHR '','') time_line)) of
           Inl e \<Rightarrow> Inl e
         | Inr (start_time_str, end_time_str) \<Rightarrow>
             (case format_time_str start_time_str of
                Inl e \<Rightarrow> Inl e
              | Inr start_srt \<Rightarrow>
                  (case format_time_str end_time_str of
                     Inl e \<Rightarrow> Inl e
                   | Inr end_srt \<Rightarrow>
                       Inr (Appended (srt_block idx start_srt end_srt text_lines))))))"

text \<open>
  The loop: the messages printed so far, and either the exception that ended it or the
  final \<open>srt_content\<close>. Warnings printed before an exception stay printed.
\<close>

fun blocks_loop :: "nat \<Rightarrow> string list \<Rightarrow> message list \<times> (pyerror + string list)" where
  "blocks_loop idx [] = ([], Inr [])"
| "blocks_loop idx (block # blocks) =
     (case convert_block idx block of
        Inl e \<Rightarrow> ([], Inl e)
      | Inr (Skipped w) \<Rightarrow>
          (case blocks_loop (Suc idx) blocks of (ms, r) \<Rightarrow> (w # ms, r))
      | Inr (Appended b) \<Rightarrow>
          (case blocks_loop (Suc idx) blocks of
             (ms, Inl e) \<Rightarrow> (ms, Inl e)
           | (ms, Inr srt_content) \<Rightarrow> (ms, Inr (b # srt_content))))"

text \<open>From the decoded text to what is printed and the text to write.\<close>

definition srt_of_content :: "string \<Rightarrow> message list \<times> (pyerror + string)" where
  "srt_of_content content =
     (case blocks_loop 1 (subtitle_blocks content) of
        (ms, Inl e) \<Rightarrow> (ms, Inl e)
      | (ms, Inr srt_content) \<Rightarrow> (ms, Inr (join [NL] srt_content)))"

section \<open>Paths and the file system\<close>

text \<open>
  A path is the list of its components below the working directory, as
  \<open>pathlib.Path.parts\<close> gives them; \<open>[]\<close> is the working directory itself.
\<close>

type_synonym path = "string list"

definition name_of :: "path \<Rightarrow> string" where
  "name_of p = (if p = [] then [] else last p)"

definition parent :: "path \<Rightarrow> path" where
  "parent p = butlast p"

text \<open>\<open>name.rfind(".")\<close>, with \<open>None\<close> for Python's -1.\<close>

fun rfind_dot :: "string \<Rightarrow> nat option" where
  "rfind_dot [] = None"
| "rfind_dot (c # cs) =
     (case rfind_dot cs of
        Some i \<Rightarrow> Some (Suc i)
      | None \<Rightarrow> if c = CHR ''.'' then Some 0 else None)"

text \<open>
  \<open>PurePath.suffix\<close> and \<open>PurePath.stem\<close>: the name is cut at its last dot when that dot
  is neither its first nor its last character.
\<close>

definition suffix :: "path \<Rightarrow> string" where
  "suffix p =
     (let name = name_of p in
      case rfind_dot name of
        None \<Rightarrow> []
      | Some i \<Rightarrow> if 0 < i \<and> i < length name - 1 then drop i name else [])"

definition stem :: "path \<Rightarrow> string" where
  "stem p =
     (let name = name_of p in
      case rfind_dot name of
        None \<Rightarrow> name
      | Some i \<Rightarrow> if 0 < i \<and> i < length name - 1 then take i name else name)"

text \<open>\<open>str.lower\<close> on the code points below 256.\<close>

definition lower_char :: "char \<Rightarrow> char" where
  "lower_char c =
     (let n = (of_char c :: nat) in
      if (65 \<le> n \<and> n \<le> 90) \<or> (192 \<le> n \<and> n \<le> 222 \<and> n \<noteq> 215)
      then char_of (n + 32) else c)"

definition lower :: "string \<Rightarrow> string" where
  "lower s = map lower_char s"

text \<open>
  A file system maps a path to what is there. \<open>Text t\<close> is a regular file whose bytes
  decode, as UTF-8 or failing that as GBK, to the text \<open>t\<close> that \<open>f.read()\<close> returns;
  \<open>Undecodable\<close> is a regular file that neither codec decodes. The working directory
  always exists.
\<close>

datatype node = Dir | Text string | Undecodable

type_synonym filesystem = "path \<Rightarrow> node option"

definition exists_path :: "filesystem \<Rightarrow> path \<Rightarrow> bool" where
  "exists_path fs p = (p = [] \<or> fs p \<noteq> None)"

definition is_dir :: "filesystem \<Rightarrow> path \<Rightarrow> bool" where
  "is_dir fs p = (p = [] \<or> fs p = Some Dir)"

definition is_file :: "filesystem \<Rightarrow> path \<Rightarrow> bool" where
  "is_file fs p = (p \<noteq> [] \<and> fs p \<noteq> None \<and> fs p \<noteq> Some Dir)"

text \<open>
  The error of the operating system for a path \<open>p\<close> that is not there. The path is
  resolved component by component, and the first proper prefix that is not a directory
  decides: \<open>NotADirectoryError\<close> (errno 20) when something else is there, as for a path
  below a regular file, and \<open>FileNotFoundError\<close> (errno 2) when nothing is there or when
  only the last component is missing.
\<close>

definition unreachable_error :: "filesystem \<Rightarrow> path \<Rightarrow> pyerror" where
  "unreachable_error fs p =
     (case find (\<lambda>q. \<not> is_dir fs q) (map (\<lambda>n. take n p) [1..<length p]) of
        None \<Rightarrow> FileNotFoundError p
      | Some q \<Rightarrow> if exists_path fs q then NotADirectoryError p else FileNotFoundError p)"

text \<open>\<open>os.mkdir(name)\<close>.\<close>

definition mkdir :: "path \<Rightarrow> filesystem \<Rightarrow> pyerror + filesystem" where
  "mkdir name fs =
     (if exists_path fs name then Inl (FileExistsError name)
      else if \<not> exists_path fs (parent name) then Inl (unreachable_error fs name)
      else if \<not> is_dir fs (parent name) then Inl (NotADirectoryError name)
      else Inr (fs(name \<mapsto> Dir)))"

text \<open>
  \<open>os.makedirs(name, exist_ok=True)\<close>: the missing ancestors are made first, then
  \<open>mkdir(name)\<close>, whose error is dropped when \<open>name\<close> is a directory. The argument of
  \<open>makedirs_rev\<close> is the path reversed, so that the recursion is on the parent. An
  exception leaves the directories made before it in place, so the file system is
  returned in both cases. (The library also ignores a \<open>FileExistsError\<close> of the recursive
  call, which only a concurrent process can cause; there is none here.)
\<close>

fun makedirs_rev :: "string list \<Rightarrow> filesystem \<Rightarrow> filesystem \<times> pyerror option" where
  "makedirs_rev [] fs = (fs, None)"
| "makedirs_rev (tail # rhead) fs =
     (case (if rhead \<noteq> [] \<and> \<not> exists_path fs (rev rhead)
            then makedirs_rev rhead fs else (fs, None)) of
        (fs1, Some e) \<Rightarrow> (fs1, Some e)
      | (fs1, None) \<Rightarrow>
          (case mkdir (rev (tail # rhead)) fs1 of
             Inr fs2 \<Rightarrow> (fs2, None)
           | Inl e \<Rightarrow> if is_dir fs1 (rev (tail # rhead)) then (fs1, None) else (fs1, Some e)))"

definition makedirs :: "path \<Rightarrow> filesystem \<Rightarrow> filesystem \<times> pyerror option" where
  "makedirs name fs = makedirs_rev (rev name) fs"

text \<open>
  \<open>open(p, "r", encoding="utf-8").read()\<close>, and on \<open>UnicodeDecodeError\<close> the same with
  \<open>"gbk"\<close>: the text of the file, or the exception that is left. A missing file gives
  \<open>FileNotFoundError\<close>, or \<open>NotADirectoryError\<close> when the path leads through a regular file.
\<close>

definition read_text :: "filesystem \<Rightarrow> path \<Rightarrow> pyerror + string" where
  "read_text fs p =
     (if p = [] then Inl (IsADirectoryError p)
      else case fs p of
        None \<Rightarrow> Inl (unreachable_error fs p)
      | Some Dir \<Rightarrow> Inl (IsADirectoryError p)
      | Some Undecodable \<Rightarrow> Inl (UnicodeDecodeError p)
      | Some (Text t) \<Rightarrow> Inr t)"

text \<open>
  \<open>open(p, "w", encoding="utf-8")\<close> and \<open>f.write(content)\<close>: the file is created or
  replaced, whatever it held.
\<close>

definition write_text :: "filesystem \<Rightarrow> path \<Rightarrow> string \<Rightarrow> pyerror + filesystem" where
  "write_text fs p content =
     (if is_dir fs p then Inl (IsADirectoryError p)
      else if \<not> exists_path fs (parent p) then Inl (unreachable_error fs p)
      else if \<not> is_dir fs (parent p) then Inl (NotADirectoryError p)
      else Inr (fs(p \<mapsto> Text content)))"

section \<open>The document converter\<close>

text \<open>
  \<open>output_dir\<close> is \<open>None\<close> for Python's \<open>None\<close> and for the empty string, which
  \<open>if not output_dir\<close> treats alike. The result of a conversion is the file system
  afterwards, the messages printed, and the exception that left the function, if one did:
  \<open>os.makedirs\<close> is called before the \<open>try\<close> block, everything after it inside, where
  \<open>except Exception\<close> turns every exception into a printed message.
\<close>

text \<open>
  The lines before the \<open>try\<close>: with an output directory given it is created, otherwise
  nothing is touched.
\<close>

definition prepare_output_dir :: "path option \<Rightarrow> filesystem \<Rightarrow> filesystem \<times> pyerror option" where
  "prepare_output_dir output_dir fs =
     (case output_dir of None \<Rightarrow> (fs, None) | Some d \<Rightarrow> makedirs d fs)"

definition srt_file_path :: "path \<Rightarrow> path option \<Rightarrow> path" where
  "srt_file_path sub_path output_dir =
     (case output_dir of None \<Rightarrow> parent sub_path | Some d \<Rightarrow> d) @ [stem sub_path @ ''.srt'']"

definition convert_in_try :: "path \<Rightarrow> path option \<Rightarrow> filesystem \<Rightarrow> filesystem \<times> message list" where
  "convert_in_try sub_path output_dir fs =
     (case read_text fs sub_path of
        Inl e \<Rightarrow> (fs, [ConvertFailed sub_path e])
      | Inr content \<Rightarrow>
          (case srt_of_content content of
             (ms, Inl e) \<Rightarrow> (fs, ms @ [ConvertFailed sub_path e])
           | (ms, Inr srt) \<Rightarrow>
               (case write_text fs (srt_file_path sub_path output_dir) srt of
                  Inl e \<Rightarrow> (fs, ms @ [ConvertFailed sub_path e])
                | Inr fs' \<Rightarrow>
                    (fs', ms @ [ConvertOk sub_path (srt_file_path sub_path output_dir)]))))"

definition convert_single_sub_to_srt ::
  "path \<Rightarrow> path option \<Rightarrow> filesystem \<Rightarrow> filesystem \<times> message list \<times> pyerror option" where
  "convert_single_sub_to_srt sub_path output_dir fs =
     (case prepare_output_dir output_dir fs of
        (fs1, Some e) \<Rightarrow> (fs1, [], Some e)
      | (fs1, None) \<Rightarrow>
          (case convert_in_try sub_path output_dir fs1 of (fs2, ms) \<Rightarrow> (fs2, ms, None)))"

section \<open>The batch driver\<close>

text \<open>
  The loop \<open>for sub_file in sub_files\<close>: an exception that leaves one conversion leaves
  the loop as well.
\<close>

fun convert_all ::
  "path list \<Rightarrow> path option \<Rightarrow> filesystem \<Rightarrow> filesystem \<times> message list \<times> pyerror option" where
  "convert_all [] output_dir fs = (fs, [], None)"
| "convert_all (sub_file # sub_files) output_dir fs =
     (case convert_single_sub_to_srt sub_file output_dir fs of
        (fs1, ms, Some e) \<Rightarrow> (fs1, ms, Some e)
      | (fs1, ms, None) \<Rightarrow>
          (case convert_all sub_files output_dir fs1 of
             (fs2, ms', r) \<Rightarrow> (fs2, ms @ ms', r)))"

text \<open>
  \<open>input_path.glob("**/*.sub")\<close> is the operating system's listing; \<open>glob_sub fs d files\<close>
  says that \<open>files\<close> is such a listing: every existing path strictly below \<open>d\<close> whose last
  component ends in \<open>.sub\<close>, once each, in some order.
\<close>

definition ends_with :: "string \<Rightarrow> string \<Rightarrow> bool" where
  "ends_with s e = (length e \<le> length s \<and> drop (length s - length e) s = e)"

definition glob_sub :: "filesystem \<Rightarrow> path \<Rightarrow> path list \<Rightarrow> bool" where
  "glob_sub fs d files =
     (distinct files \<and>
      set files = {p. length d < length p \<and> take (length d) p = d \<and> fs p \<noteq> None \<and>
                      ends_with (name_of p) ''.sub''})"

text \<open>
  \<open>batch_convert_sub_to_srt\<close>, with the listing \<open>sub_files\<close> that the glob returns in
  the directory branch.
\<close>

definition batch_convert_sub_to_srt ::
  "path \<Rightarrow> path option \<Rightarrow> path list \<Rightarrow> filesystem \<Rightarrow> filesystem \<times> message list \<times> pyerror option" where
  "batch_convert_sub_to_srt input_path output_dir sub_files fs =
     (if is_file fs input_path \<and> lower (suffix input_path) = ''.sub''
      then convert_single_sub_to_srt input_path output_dir fs
      else if is_dir fs input_path then
        (if sub_files = [] then (fs, [NoSubFiles input_path], None)
         else (case convert_all sub_files output_dir fs of
                 (fs', ms, r) \<Rightarrow> (fs', FoundSubFiles (length sub_files) # ms, r)))
      else (fs, [InvalidPath input_path], None))"

section \<open>Notions used to state the properties\<close>

text \<open>
  Whether a block makes the loop raise does not depend on its index, so index 0 decides
  it; \<open>block_srt idx block\<close> is the text that the loop appends for a block it keeps.
\<close>

definition block_raises :: "string \<Rightarrow> bool" where
  "block_raises block = (case convert_block 0 block of Inl e \<Rightarrow> True | Inr r \<Rightarrow> False)"

definition block_srt :: "nat \<Rightarrow> string \<Rightarrow> string" where
  "block_srt idx block = (case convert_block idx block of Inr (Appended s) \<Rightarrow> s | _ \<Rightarrow> [])"

text \<open>A path that \<open>read_text\<close> can read.\<close>

definition readable :: "filesystem \<Rightarrow> path \<Rightarrow> bool" where
  "readable fs p = (case read_text fs p of Inl e \<Rightarrow> False | Inr t \<Rightarrow> True)"

text \<open>
  The output directory is in place: \<open>os.makedirs\<close> finds it and changes nothing.
\<close>

definition dir_ready :: "filesystem \<Rightarrow> path option \<Rightarrow> bool" where
  "dir_ready fs output_dir =
     (case output_dir of
        None \<Rightarrow> True
      | Some d \<Rightarrow> d = [] \<or> (fs d = Some Dir \<and> (butlast d = [] \<or> fs (butlast d) \<noteq> None)))"

text \<open>
  What the conversion of \<open>sub_path\<close> writes when it runs on the file system \<open>fs\<close>: the
  one entry it stores, or nothing when it fails.
\<close>

definition planned_write :: "filesystem \<Rightarrow> path option \<Rightarrow> path \<Rightarrow> filesystem" where
  "planned_write fs output_dir sub_path =
     (case read_text fs sub_path of
        Inl e \<Rightarrow> Map.empty
      | Inr content \<Rightarrow>
          (case srt_of_content content of
             (ms, Inl e) \<Rightarrow> Map.empty
           | (ms, Inr srt) \<Rightarrow>
               (case write_text fs (srt_file_path sub_path output_dir) srt of
                  Inl e \<Rightarrow> Map.empty
                | Inr fs' \<Rightarrow> [srt_file_path sub_path output_dir \<mapsto> Text srt])))"

text \<open>
  \<open>outputs_added fs fs'\<close>: the file system \<open>fs'\<close> is \<open>fs\<close> except for regular files named
  \<open>*.srt\<close>, written where \<open>fs\<close> has no directory.
\<close>

definition outputs_added :: "filesystem \<Rightarrow> filesystem \<Rightarrow> bool" where
  "outputs_added fs fs' =
     (\<forall>q. fs' q = fs q \<or>
          (ends_with (name_of q) ''.srt'' \<and> fs q \<noteq> Some Dir \<and> (\<exists>s. fs' q = Some (Text s))))"

section \<open>Splitting and the time formatter\<close>

lemma split_on_not_Nil: "split_on sep s \<noteq> []"
  by (induction s) (auto split: list.splits)

lemma split_on_no_sep: "sep \<notin> set s \<Longrightarrow> split_on sep s = [s]"
  by (induction s) auto

lemma split_on_prefix: "sep \<notin> set a \<Longrightarrow> split_on sep (a @ sep # b) = a # split_on sep b"
  by (induction a) auto

lemma format_time_parts:
  assumes "CHR '':'' \<notin> set hh" "CHR '':'' \<notin> set mm" "CHR '':'' \<notin> set ss"
    and "CHR '':'' \<notin> set ms" "CHR ''.'' \<notin> set ss" "CHR ''.'' \<notin> set ms"
  shows "unpack3 (split_on (CHR '':'') (hh @ '':'' @ mm @ '':'' @ ss @ ''.'' @ ms)) =
           Inr (hh, mm, ss @ ''.'' @ ms)"
    and "unpack2 (split_on (CHR ''.'') (ss @ ''.'' @ ms)) = Inr (ss, ms)"
  using assms by (simp_all add: split_on_prefix split_on_no_sep)

text \<open>
  C2. A timestamp \<open>HH:MM:SS\<close> without a dot (no component holds a colon or a dot) is
  returned with \<open>,000\<close> appended.
\<close>

theorem format_time_str_no_fraction:
  assumes "CHR '':'' \<notin> set hh" "CHR '':'' \<notin> set mm" "CHR '':'' \<notin> set ss"
    and "CHR ''.'' \<notin> set hh" "CHR ''.'' \<notin> set mm" "CHR ''.'' \<notin> set ss"
  shows "format_time_str (hh @ '':'' @ mm @ '':'' @ ss) =
           Inr (hh @ '':'' @ mm @ '':'' @ ss @ '',000'')"
  using assms format_time_parts [of hh mm ss "''0000000''"]
  by (simp add: format_time_str_def ljust0_def)

theorem format_time_str_no_fraction_witness:
  "format_time_str ''00:00:27'' = Inr ''00:00:27,000''"
  using format_time_str_no_fraction [of "''00''" "''00''" "''27''"] by simp

text \<open>
  C3. For \<open>HH:MM:SS.F\<close> the fraction is cut to its first three characters, never rounded,
  and padded on the right with zeros to three characters.
\<close>

theorem format_time_str_fraction:
  assumes "CHR '':'' \<notin> set hh" "CHR '':'' \<notin> set mm" "CHR '':'' \<notin> set ss"
    and "CHR '':'' \<notin> set F" "CHR ''.'' \<notin> set ss" "CHR ''.'' \<notin> set F"
  shows "format_time_str (hh @ '':'' @ mm @ '':'' @ ss @ ''.'' @ F) =
           Inr (hh @ '':'' @ mm @ '':'' @ ss @ '','' @ take 3 F @ replicate (3 - length F) (CHR ''0''))
         \<and> length (take 3 F @ replicate (3 - length F) (CHR ''0'')) = 3"
  using assms format_time_parts [of hh mm ss F]
  by (auto simp add: format_time_str_def ljust0_def)

theorem format_time_str_fraction_witness:
  "format_time_str ''00:00:11.5000000'' = Inr ''00:00:11,500''
   \<and> format_time_str ''00:00:11.9'' = Inr ''00:00:11,900''
   \<and> format_time_str ''00:00:11.12'' = Inr ''00:00:11,120''
   \<and> format_time_str ''00:00:11.9999'' = Inr ''00:00:11,999''"
  using format_time_str_fraction [of "''00''" "''00''" "''11''" "''5000000''"]
    format_time_str_fraction [of "''00''" "''00''" "''11''" "''9''"]
    format_time_str_fraction [of "''00''" "''00''" "''11''" "''12''"]
    format_time_str_fraction [of "''00''" "''00''" "''11''" "''9999''"]
  by (simp add: numeral_2_eq_2)

section \<open>The end-to-end scenario\<close>

lemma scenario_srt:
  "srt_of_content ''00:00:01,00:00:03\<newline>Hello world\<newline>\<newline>00:00:05,00:00:07.250\<newline>Second line'' =
     ([], Inr ''1\<newline>00:00:01,000 --> 00:00:03,000\<newline>Hello world\<newline>\<newline>2\<newline>00:00:05,000 --> 00:00:07,250\<newline>Second line\<newline>'')"
  by code_simp

lemma scenario_srt_final_newline:
  "srt_of_content ''00:00:01,00:00:03\<newline>Hello world\<newline>\<newline>00:00:05,00:00:07.250\<newline>Second line\<newline>'' =
     ([], Inr ''1\<newline>00:00:01,000 --> 00:00:03,000\<newline>Hello world\<newline>\<newline>2\<newline>00:00:05,000 --> 00:00:07,250\<newline>Second line\<newline>'')"
  by code_simp

lemma stem_movie: "stem [''movie.sub''] = ''movie''"
  by (simp add: stem_def name_of_def)

text \<open>
  C1. Converting a file that holds the two blocks of the scenario writes, beside it, a
  file with exactly the expected text and prints the success line; the text is the same
  when the input ends with a newline.
\<close>

theorem end_to_end_scenario:
  "convert_single_sub_to_srt [''movie.sub''] None
     [[''movie.sub''] \<mapsto> Text ''00:00:01,00:00:03\<newline>Hello world\<newline>\<newline>00:00:05,00:00:07.250\<newline>Second line'']
   = ([[''movie.sub''] \<mapsto> Text ''00:00:01,00:00:03\<newline>Hello world\<newline>\<newline>00:00:05,00:00:07.250\<newline>Second line'',
       [''movie.srt''] \<mapsto> Text ''1\<newline>00:00:01,000 --> 00:00:03,000\<newline>Hello world\<newline>\<newline>2\<newline>00:00:05,000 --> 00:00:07,250\<newline>Second line\<newline>''],
      [ConvertOk [''movie.sub''] [''movie.srt'']], None)
   \<and> srt_of_content ''00:00:01,00:00:03\<newline>Hello world\<newline>\<newline>00:00:05,00:00:07.250\<newline>Second line\<newline>'' =
     ([], Inr ''1\<newline>00:00:01,000 --> 00:00:03,000\<newline>Hello world\<newline>\<newline>2\<newline>00:00:05,000 --> 00:00:07,250\<newline>Second line\<newline>'')"
  by (simp add: convert_single_sub_to_srt_def prepare_output_dir_def convert_in_try_def
      read_text_def scenario_srt scenario_srt_final_newline write_text_def srt_file_path_def
      stem_movie parent_def is_dir_def exists_path_def)

section \<open>The block loop\<close>

lemma convert_block_no_newline:
  "NL \<notin> set b \<Longrightarrow> convert_block i b = Inr (Skipped (BlockWarning i (take 50 b)))"
  by (simp add: convert_block_def split_first_nl_def)

lemma convert_block_error_any_index: "convert_block i b = Inl e \<Longrightarrow> convert_block j b = Inl e"
  by (auto simp: convert_block_def Let_def split: if_splits sum.splits prod.splits)

lemma convert_block_newline_cases:
  "NL \<in> set b \<Longrightarrow>
   (\<exists>e. \<forall>i. convert_block i b = Inl e) \<or> (\<forall>i. \<exists>s. convert_block i b = Inr (Appended s))"
  by (auto simp: convert_block_def Let_def split_first_nl_def split: if_splits sum.splits prod.splits)

lemma convert_block_kept:
  assumes "\<not> block_raises b" "NL \<in> set b"
  shows "convert_block i b = Inr (Appended (block_srt i b))"
proof -
  from convert_block_newline_cases [OF assms(2)] show ?thesis
  proof
    assume "\<exists>e. \<forall>i. convert_block i b = Inl e"
    then obtain e where "convert_block 0 b = Inl e" by blast
    with assms(1) show ?thesis by (simp add: block_raises_def)
  next
    assume "\<forall>i. \<exists>s. convert_block i b = Inr (Appended s)"
    then obtain s where "convert_block i b = Inr (Appended s)" by blast
    then show ?thesis by (simp add: block_srt_def)
  qed
qed

lemma block_raises_iff: "block_raises b \<longleftrightarrow> (\<exists>e. convert_block i b = Inl e)"
proof
  assume "block_raises b"
  then obtain e where "convert_block 0 b = Inl e"
    by (auto simp: block_raises_def split: sum.splits)
  then show "\<exists>e. convert_block i b = Inl e" using convert_block_error_any_index by blast
next
  assume "\<exists>e. convert_block i b = Inl e"
  then obtain e where "convert_block 0 b = Inl e" using convert_block_error_any_index by blast
  then show "block_raises b" by (simp add: block_raises_def)
qed

lemma blocks_loop_raises:
  "b \<in> set blocks \<Longrightarrow> block_raises b \<Longrightarrow> \<exists>ms e. blocks_loop k blocks = (ms, Inl e)"
proof (induction blocks arbitrary: k)
  case Nil then show ?case by simp
next
  case (Cons a blocks)
  show ?case
  proof (cases "convert_block k a")
    case (Inl e) then show ?thesis by simp
  next
    case (Inr r)
    then have "\<not> block_raises a" by (simp add: block_raises_iff [of a k])
    with Cons.prems have "b \<in> set blocks" by auto
    from Cons.IH [OF this Cons.prems(2), of "Suc k"] obtain ms e where
      "blocks_loop (Suc k) blocks = (ms, Inl e)" by blast
    with Inr show ?thesis by (cases r) auto
  qed
qed

lemma blocks_loop_no_raise:
  "\<forall>b\<in>set blocks. \<not> block_raises b \<Longrightarrow>
   blocks_loop k blocks =
     ([BlockWarning i (take 50 b). (i, b) \<leftarrow> enumerate k blocks, NL \<notin> set b],
      Inr [block_srt i b. (i, b) \<leftarrow> enumerate k blocks, NL \<in> set b])"
proof (induction blocks arbitrary: k)
  case Nil then show ?case by simp
next
  case (Cons a blocks)
  then have IH: "blocks_loop (Suc k) blocks =
     ([BlockWarning i (take 50 b). (i, b) \<leftarrow> enumerate (Suc k) blocks, NL \<notin> set b],
      Inr [block_srt i b. (i, b) \<leftarrow> enumerate (Suc k) blocks, NL \<in> set b])" by simp
  show ?case
  proof (cases "NL \<in> set a")
    case True
    with Cons.prems have "convert_block k a = Inr (Appended (block_srt k a))"
      by (simp add: convert_block_kept)
    with IH True show ?thesis by simp
  next
    case False
    then show ?thesis using IH by (simp add: convert_block_no_newline)
  qed
qed

lemma srt_of_content_raises:
  "b \<in> set (subtitle_blocks content) \<Longrightarrow> block_raises b \<Longrightarrow>
   \<exists>ms e. srt_of_content content = (ms, Inl e)"
  using blocks_loop_raises [of b "subtitle_blocks content" 1]
  by (auto simp: srt_of_content_def)

lemma convert_in_try_raises:
  assumes "read_text fs p = Inr content" "b \<in> set (subtitle_blocks content)" "block_raises b"
  shows "\<exists>ms e. convert_in_try p out fs = (fs, ms @ [ConvertFailed p e])"
  using srt_of_content_raises [OF assms(2,3)] assms(1)
  by (auto simp: convert_in_try_def)

lemma convert_in_try_written:
  assumes "read_text fs p = Inr content" "srt_of_content content = (ms, Inr srt)"
    and "write_text fs (srt_file_path p out) srt = Inr fs'"
  shows "convert_in_try p out fs = (fs', ms @ [ConvertOk p (srt_file_path p out)])"
  using assms by (simp add: convert_in_try_def)

lemma write_text_result: "write_text fs p c = Inr fs' \<Longrightarrow> fs' = fs(p \<mapsto> Text c)"
  by (auto simp: write_text_def split: if_splits)

section \<open>makedirs\<close>

lemma mkdir_result: "mkdir name fs = Inr fs' \<Longrightarrow> fs name = None \<and> fs' = fs(name \<mapsto> Dir)"
  by (auto simp: mkdir_def exists_path_def split: if_splits)

lemma makedirs_rev_only_new_dirs:
  "makedirs_rev r fs = (fs1, res) \<Longrightarrow> fs1 q = fs q \<or> (fs q = None \<and> fs1 q = Some Dir)"
proof (induction r arbitrary: fs fs1 res)
  case Nil then show ?case by simp
next
  case (Cons tail rhead)
  obtain fsA resA where inner:
    "(if rhead \<noteq> [] \<and> \<not> exists_path fs (rev rhead) then makedirs_rev rhead fs else (fs, None)) = (fsA, resA)"
    by (cases "(if rhead \<noteq> [] \<and> \<not> exists_path fs (rev rhead) then makedirs_rev rhead fs else (fs, None))") auto
  have A: "fsA q = fs q \<or> (fs q = None \<and> fsA q = Some Dir)"
    using inner Cons.IH [of fs fsA resA] by (auto split: if_splits)
  show ?case
  proof (cases resA)
    case (Some e)
    with Cons.prems inner have "fs1 = fsA" by simp
    with A show ?thesis by simp
  next
    case None
    show ?thesis
    proof (cases "mkdir (rev (tail # rhead)) fsA")
      case (Inl e)
      with Cons.prems inner None have "fs1 = fsA" by (auto split: if_splits)
      with A show ?thesis by simp
    next
      case (Inr fs2)
      with Cons.prems inner None have "fs1 = fs2" by auto
      with mkdir_result [OF Inr] A show ?thesis by (auto split: if_splits)
    qed
  qed
qed

lemma prepare_output_dir_only_new_dirs:
  "prepare_output_dir out fs = (fs1, res) \<Longrightarrow> fs1 q = fs q \<or> (fs q = None \<and> fs1 q = Some Dir)"
  using makedirs_rev_only_new_dirs
  by (auto simp: prepare_output_dir_def makedirs_def split: option.splits)

section \<open>Errors of the time formatter\<close>

lemma unpack3_cases: "unpack3 xs = (if length xs = 3 then Inr (xs ! 0, xs ! 1, xs ! 2)
   else if length xs < 3 then Inl (NotEnoughValues 3 (length xs)) else Inl (TooManyValues 3 (length xs)))"
  by (cases xs rule: unpack3.cases) auto

lemma unpack2_cases: "unpack2 xs = (if length xs = 2 then Inr (xs ! 0, xs ! 1)
   else if length xs < 2 then Inl (NotEnoughValues 2 (length xs)) else Inl (TooManyValues 2 (length xs)))"
  by (cases xs rule: unpack2.cases) auto

lemma format_time_str_cases:
  "format_time_str s =
    (let t = (if CHR ''.'' \<notin> set s then s @ ''.0000000'' else s);
         parts = split_on (CHR '':'') t;
         secs = split_on (CHR ''.'') (parts ! 2)
     in if length parts < 3 then Inl (NotEnoughValues 3 (length parts))
        else if length parts > 3 then Inl (TooManyValues 3 (length parts))
        else if length secs < 2 then Inl (NotEnoughValues 2 (length secs))
        else if length secs > 2 then Inl (TooManyValues 2 (length secs))
        else Inr (parts ! 0 @ '':'' @ parts ! 1 @ '':'' @ secs ! 0 @ '','' @ ljust0 3 (take 3 (secs ! 1))))"
  by (auto simp: format_time_str_def Let_def unpack3_cases unpack2_cases)

lemma convert_block_time_error:
  assumes "split_first_nl block = [time_line, text_lines]"
    and "map strip (split_on (CHR '','') time_line) = [start, end]"
    and "isl (format_time_str start) \<or> isl (format_time_str end)"
  shows "block_raises block"
  using assms by (auto simp: block_raises_def convert_block_def Let_def isl_def split: sum.splits)

text \<open>
  C4, in the form that holds of the code. The hour, minute and second strings are never
  checked and go verbatim into the result. The formatter returns exactly when the string
  (with \<open>.0000000\<close> appended when it holds no dot) splits at its colons into three parts
  and the third part splits at its dots into two; otherwise it raises. So a string of
  three colon parts raises exactly when it holds a dot and its third part holds none or
  more than one; a dot in the hour or minute part alone is no error. An exception raised
  for a start or end time is caught by the converter as a failure of the whole file:
  nothing is written and the failure line is printed.
\<close>

theorem format_time_str_errors:
  "(let t = (if CHR ''.'' \<notin> set s then s @ ''.0000000'' else s);
        parts = split_on (CHR '':'') t;
        secs = split_on (CHR ''.'') (parts ! 2)
    in if length parts = 3 \<and> length secs = 2
       then format_time_str s =
              Inr (parts ! 0 @ '':'' @ parts ! 1 @ '':'' @ secs ! 0 @ '','' @ ljust0 3 (take 3 (secs ! 1)))
       else isl (format_time_str s))
   \<and> (read_text fs p = Inr content \<and> block \<in> set (subtitle_blocks content)
        \<and> split_first_nl block = [time_line, text_lines]
        \<and> map strip (split_on (CHR '','') time_line) = [start, end]
        \<and> (isl (format_time_str start) \<or> isl (format_time_str end))
      \<longrightarrow> (\<exists>ms e. convert_in_try p out fs = (fs, ms @ [ConvertFailed p e])))"
proof
  show "(let t = (if CHR ''.'' \<notin> set s then s @ ''.0000000'' else s);
        parts = split_on (CHR '':'') t;
        secs = split_on (CHR ''.'') (parts ! 2)
    in if length parts = 3 \<and> length secs = 2
       then format_time_str s =
              Inr (parts ! 0 @ '':'' @ parts ! 1 @ '':'' @ secs ! 0 @ '','' @ ljust0 3 (take 3 (secs ! 1)))
       else isl (format_time_str s))"
    unfolding format_time_str_cases [of s] by (auto simp: Let_def)
next
  show "read_text fs p = Inr content \<and> block \<in> set (subtitle_blocks content)
        \<and> split_first_nl block = [time_line, text_lines]
        \<and> map strip (split_on (CHR '','') time_line) = [start, end]
        \<and> (isl (format_time_str start) \<or> isl (format_time_str end))
      \<longrightarrow> (\<exists>ms e. convert_in_try p out fs = (fs, ms @ [ConvertFailed p e]))"
  proof (intro impI, elim conjE)
    assume a: "read_text fs p = Inr content" "block \<in> set (subtitle_blocks content)"
      "split_first_nl block = [time_line, text_lines]"
      "map strip (split_on (CHR '','') time_line) = [start, end]"
      "isl (format_time_str start) \<or> isl (format_time_str end)"
    from convert_block_time_error [OF a(3,4,5)] have "block_raises block" .
    from convert_in_try_raises [OF a(1,2) this] show
      "\<exists>ms e. convert_in_try p out fs = (fs, ms @ [ConvertFailed p e])" .
  qed
qed

lemma cex_blocks: "subtitle_blocks ''00:00:01,00:00:02\<newline>fine\<newline>\<newline>1.5:00:00,00:00:04\<newline>lost'' = [''00:00:01,00:00:02\<newline>fine'', ''1.5:00:00,00:00:04\<newline>lost'']"
  by code_simp

lemma cex_srt: "srt_of_content ''00:00:01,00:00:02\<newline>fine\<newline>\<newline>1.5:00:00,00:00:04\<newline>lost'' = ([], Inl (NotEnoughValues 2 1))"
  by code_simp

lemma cex_fmt: "format_time_str ''1.5:00:00'' = Inl (NotEnoughValues 2 1)"
  by code_simp

text \<open>
  C4 without that amendment fails: \<open>1.5:00:00\<close> splits into three parts at its colons and the
  formatter still raises; and the exception abandons the whole file, the well-formed
  first block included.
\<close>

theorem format_time_str_errors_counterexample:
  "split_on (CHR '':'') ''1.5:00:00'' = [''1.5'', ''00'', ''00'']
   \<and> format_time_str ''1.5:00:00'' = Inl (NotEnoughValues 2 1)
   \<and> convert_single_sub_to_srt [''a.sub''] None
        [[''a.sub''] \<mapsto> Text ''00:00:01,00:00:02\<newline>fine\<newline>\<newline>1.5:00:00,00:00:04\<newline>lost'']
      = ([[''a.sub''] \<mapsto> Text ''00:00:01,00:00:02\<newline>fine\<newline>\<newline>1.5:00:00,00:00:04\<newline>lost''],
         [ConvertFailed [''a.sub''] (NotEnoughValues 2 1)], None)"
  by (simp add: cex_fmt cex_srt convert_single_sub_to_srt_def prepare_output_dir_def
      convert_in_try_def read_text_def)

text \<open>
  Concrete inputs: a plain timestamp, one with a dot in the hour part and a fraction
  (returned), one whose only dot sits in the hour part (raises), and a file that is
  abandoned for it.
\<close>

theorem format_time_str_errors_witness:
  "format_time_str ''7:5:3.25'' = Inr ''7:5:3,250''
   \<and> format_time_str ''1.5:00:00.5'' = Inr ''1.5:00:00,500''
   \<and> isl (format_time_str ''1.5:00:00'')
   \<and> (\<exists>ms e. convert_in_try [''a.sub''] None
         [[''a.sub''] \<mapsto> Text ''00:00:01,00:00:02\<newline>fine\<newline>\<newline>1.5:00:00,00:00:04\<newline>lost'']
       = ([[''a.sub''] \<mapsto> Text ''00:00:01,00:00:02\<newline>fine\<newline>\<newline>1.5:00:00,00:00:04\<newline>lost''],
          ms @ [ConvertFailed [''a.sub''] e]))"
  using format_time_str_errors [of "''7:5:3.25''"]
    format_time_str_errors [of "''1.5:00:00.5''"]
    format_time_str_errors [of "''1.5:00:00''"]
    format_time_str_errors [of _ "[[''a.sub''] \<mapsto> Text ''00:00:01,00:00:02\<newline>fine\<newline>\<newline>1.5:00:00,00:00:04\<newline>lost'']"
      "[''a.sub'']" "''00:00:01,00:00:02\<newline>fine\<newline>\<newline>1.5:00:00,00:00:04\<newline>lost''"
      "''1.5:00:00,00:00:04\<newline>lost''" "''1.5:00:00,00:00:04''" "''lost''" "''1.5:00:00''" "''00:00:04''" None]
  by (simp add: cex_blocks read_text_def split_first_nl_def NL_def strip_def isspace_def cex_fmt
      ljust0_def numeral_2_eq_2)

section \<open>Block indices\<close>








lemma convert_block_comma_error:
  assumes "split_first_nl block = [time_line, text_lines]"
    and "length (split_on (CHR '','') time_line) \<noteq> 2"
  shows "block_raises block"
  using assms by (auto simp: block_raises_def convert_block_def Let_def unpack2_cases split: sum.splits)

text \<open>
  C7. When some block of the document has a time line that does not split at its commas
  into exactly two parts, the conversion of the file ends with the failure line for its
  path, the file system is as the preparation of the output directory left it (no file
  created or changed), no exception leaves the converter, and the batch loop goes on
  with the remaining files.
\<close>

theorem bad_time_line_fails_file:
  assumes "prepare_output_dir out fs = (fs1, None)" and "read_text fs1 p = Inr content"
    and "block \<in> set (subtitle_blocks content)"
    and "split_first_nl block = [time_line, text_lines]"
    and "length (split_on (CHR '','') time_line) \<noteq> 2"
  shows "\<exists>ms e. convert_single_sub_to_srt p out fs = (fs1, ms @ [ConvertFailed p e], None)
           \<and> (\<forall>q. fs1 q = fs q \<or> (fs q = None \<and> fs1 q = Some Dir))
           \<and> convert_all (p # rest) out fs =
               (case convert_all rest out fs1 of
                  (fs2, ms', r) \<Rightarrow> (fs2, (ms @ [ConvertFailed p e]) @ ms', r))"
proof -
  have "block_raises block" using assms(4,5) by (rule convert_block_comma_error)
  from convert_in_try_raises [OF assms(2,3) this] obtain ms e where
    t: "convert_in_try p out fs1 = (fs1, ms @ [ConvertFailed p e])" by blast
  then have c: "convert_single_sub_to_srt p out fs = (fs1, ms @ [ConvertFailed p e], None)"
    using assms(1) by (simp add: convert_single_sub_to_srt_def)
  have d: "\<forall>q. fs1 q = fs q \<or> (fs q = None \<and> fs1 q = Some Dir)"
    using prepare_output_dir_only_new_dirs [OF assms(1)] by blast
  from c d show ?thesis by (intro exI [of _ ms] exI [of _ e]) simp
qed

lemma bad_blocks: "subtitle_blocks ''00:00:01 00:00:02\<newline>no comma'' = [''00:00:01 00:00:02\<newline>no comma'']"
  by code_simp

lemma ok_blocks: "srt_of_content ''00:00:01,00:00:02\<newline>fine'' = ([], Inr ''1\<newline>00:00:01,000 --> 00:00:02,000\<newline>fine\<newline>'')"
  by code_simp

lemma stem_ab: "stem [''a.sub''] = ''a''" "stem [''b.sub''] = ''b''"
  by (simp_all add: stem_def name_of_def)

text \<open>A file without a comma in its time line, followed by a well-formed file.\<close>

theorem bad_time_line_fails_file_witness:
  "\<exists>ms e. convert_single_sub_to_srt [''a.sub''] None
            [[''a.sub''] \<mapsto> Text ''00:00:01 00:00:02\<newline>no comma'', [''b.sub''] \<mapsto> Text ''00:00:01,00:00:02\<newline>fine'']
          = ([[''a.sub''] \<mapsto> Text ''00:00:01 00:00:02\<newline>no comma'', [''b.sub''] \<mapsto> Text ''00:00:01,00:00:02\<newline>fine''],
             ms @ [ConvertFailed [''a.sub''] e], None)
        \<and> convert_all [[''a.sub''], [''b.sub'']] None
            [[''a.sub''] \<mapsto> Text ''00:00:01 00:00:02\<newline>no comma'', [''b.sub''] \<mapsto> Text ''00:00:01,00:00:02\<newline>fine'']
          = ([[''a.sub''] \<mapsto> Text ''00:00:01 00:00:02\<newline>no comma'', [''b.sub''] \<mapsto> Text ''00:00:01,00:00:02\<newline>fine'',
              [''b.srt''] \<mapsto> Text ''1\<newline>00:00:01,000 --> 00:00:02,000\<newline>fine\<newline>''],
             (ms @ [ConvertFailed [''a.sub''] e]) @ [ConvertOk [''b.sub''] [''b.srt'']], None)"
  using bad_time_line_fails_file [of None
      "[[''a.sub''] \<mapsto> Text ''00:00:01 00:00:02\<newline>no comma'', [''b.sub''] \<mapsto> Text ''00:00:01,00:00:02\<newline>fine'']"
      "[[''a.sub''] \<mapsto> Text ''00:00:01 00:00:02\<newline>no comma'', [''b.sub''] \<mapsto> Text ''00:00:01,00:00:02\<newline>fine'']"
      "[''a.sub'']" "''00:00:01 00:00:02\<newline>no comma''" "''00:00:01 00:00:02\<newline>no comma''"
      "''00:00:01 00:00:02''" "''no comma''" "[[''b.sub'']]"]
  by (simp add: prepare_output_dir_def read_text_def bad_blocks split_first_nl_def NL_def
      convert_single_sub_to_srt_def convert_in_try_def ok_blocks write_text_def srt_file_path_def
      stem_ab parent_def is_dir_def exists_path_def)

text \<open>
  C8. "The converter never raises past its own boundary" does not hold of the code:
  \<open>os.makedirs\<close> stands before the \<open>try\<close>. With a regular file at the path of the output
  directory, the exception leaves the converter, nothing is printed, and the batch loop
  ends before the second file is looked at.
\<close>

theorem makedirs_error_escapes:
  "convert_single_sub_to_srt [''a.sub''] (Some [''out''])
     [[''a.sub''] \<mapsto> Text ''00:00:01,00:00:02\<newline>fine'', [''b.sub''] \<mapsto> Text ''00:00:01,00:00:02\<newline>fine'',
      [''out''] \<mapsto> Text ''a regular file'']
   = ([[''a.sub''] \<mapsto> Text ''00:00:01,00:00:02\<newline>fine'', [''b.sub''] \<mapsto> Text ''00:00:01,00:00:02\<newline>fine'',
       [''out''] \<mapsto> Text ''a regular file''],
      [], Some (FileExistsError [''out'']))
   \<and> convert_all [[''a.sub''], [''b.sub'']] (Some [''out''])
     [[''a.sub''] \<mapsto> Text ''00:00:01,00:00:02\<newline>fine'', [''b.sub''] \<mapsto> Text ''00:00:01,00:00:02\<newline>fine'',
      [''out''] \<mapsto> Text ''a regular file'']
   = ([[''a.sub''] \<mapsto> Text ''00:00:01,00:00:02\<newline>fine'', [''b.sub''] \<mapsto> Text ''00:00:01,00:00:02\<newline>fine'',
       [''out''] \<mapsto> Text ''a regular file''],
      [], Some (FileExistsError [''out'']))"
  by (simp add: convert_single_sub_to_srt_def prepare_output_dir_def makedirs_def mkdir_def
      exists_path_def is_dir_def)

section \<open>Skipped blocks and empty documents\<close>

lemma blocks_loop_prefix:
  "\<forall>c\<in>set before. \<not> block_raises c \<Longrightarrow>
   blocks_loop k (before @ rest) =
     (case blocks_loop (k + length before) rest of
        (ms, Inl e) \<Rightarrow>
          ([BlockWarning j (take 50 c). (j, c) \<leftarrow> enumerate k before, NL \<notin> set c] @ ms, Inl e)
      | (ms, Inr kept) \<Rightarrow>
          ([BlockWarning j (take 50 c). (j, c) \<leftarrow> enumerate k before, NL \<notin> set c] @ ms,
           Inr ([block_srt j c. (j, c) \<leftarrow> enumerate k before, NL \<in> set c] @ kept)))"
proof (induction before arbitrary: k)
  case Nil
  then show ?case by (simp split: prod.splits sum.splits)
next
  case (Cons a before)
  then have IH: "blocks_loop (Suc k) (before @ rest) =
     (case blocks_loop (Suc k + length before) rest of
        (ms, Inl e) \<Rightarrow>
          ([BlockWarning j (take 50 c). (j, c) \<leftarrow> enumerate (Suc k) before, NL \<notin> set c] @ ms, Inl e)
      | (ms, Inr kept) \<Rightarrow>
          ([BlockWarning j (take 50 c). (j, c) \<leftarrow> enumerate (Suc k) before, NL \<notin> set c] @ ms,
           Inr ([block_srt j c. (j, c) \<leftarrow> enumerate (Suc k) before, NL \<in> set c] @ kept)))"
    by simp
  show ?case
  proof (cases "NL \<in> set a")
    case True
    with Cons.prems have "convert_block k a = Inr (Appended (block_srt k a))"
      by (simp add: convert_block_kept)
    with IH True show ?thesis by (simp split: prod.splits sum.splits)
  next
    case False
    then show ?thesis using IH by (simp add: convert_block_no_newline split: prod.splits sum.splits)
  qed
qed

lemma blocks_loop_skip_at:
  assumes "i < length blocks" "NL \<notin> set (blocks ! i)" "\<forall>j<i. \<not> block_raises (blocks ! j)"
  shows "blocks_loop 1 blocks =
     (case blocks_loop (Suc (Suc i)) (drop (Suc i) blocks) of
        (ms, Inl e) \<Rightarrow>
          ([BlockWarning j (take 50 c). (j, c) \<leftarrow> enumerate 1 (take i blocks), NL \<notin> set c]
             @ BlockWarning (Suc i) (take 50 (blocks ! i)) # ms, Inl e)
      | (ms, Inr kept) \<Rightarrow>
          ([BlockWarning j (take 50 c). (j, c) \<leftarrow> enumerate 1 (take i blocks), NL \<notin> set c]
             @ BlockWarning (Suc i) (take 50 (blocks ! i)) # ms,
           Inr ([block_srt j c. (j, c) \<leftarrow> enumerate 1 (take i blocks), NL \<in> set c] @ kept)))"
proof -
  have s: "blocks = take i blocks @ blocks ! i # drop (Suc i) blocks"
    using assms(1) by (rule id_take_nth_drop)
  have n: "\<forall>c\<in>set (take i blocks). \<not> block_raises c"
    using assms(1,3) by (auto simp: in_set_conv_nth)
  have l: "1 + length (take i blocks) = Suc i" using assms(1) by simp
  have "blocks_loop 1 (take i blocks @ blocks ! i # drop (Suc i) blocks) =
     (case blocks_loop (Suc (Suc i)) (drop (Suc i) blocks) of
        (ms, Inl e) \<Rightarrow>
          ([BlockWarning j (take 50 c). (j, c) \<leftarrow> enumerate 1 (take i blocks), NL \<notin> set c]
             @ BlockWarning (Suc i) (take 50 (blocks ! i)) # ms, Inl e)
      | (ms, Inr kept) \<Rightarrow>
          ([BlockWarning j (take 50 c). (j, c) \<leftarrow> enumerate 1 (take i blocks), NL \<notin> set c]
             @ BlockWarning (Suc i) (take 50 (blocks ! i)) # ms,
           Inr ([block_srt j c. (j, c) \<leftarrow> enumerate 1 (take i blocks), NL \<in> set c] @ kept)))"
    unfolding blocks_loop_prefix [OF n, of 1 "blocks ! i # drop (Suc i) blocks"] l
    by (simp add: convert_block_no_newline [OF assms(2)] split: prod.splits sum.splits)
  with s show ?thesis by simp
qed

lemma convert_in_try_messages:
  assumes "read_text fs p = Inr content"
  shows "\<exists>fs' final. convert_in_try p out fs = (fs', fst (srt_of_content content) @ [final])"
  using assms by (auto simp: convert_in_try_def split: prod.splits sum.splits)

lemma srt_of_content_messages: "fst (srt_of_content content) = fst (blocks_loop 1 (subtitle_blocks content))"
  by (auto simp: srt_of_content_def split: prod.splits sum.splits)

text \<open>
  C5, in the form that holds of the code. Take a block without a newline that no raising
  block precedes. It yields the warning with its position and its first 50 characters
  and no entry; the loop goes on with the next block under the next number, so that the
  messages and entries of the whole loop are those of the blocks before it, the warning,
  and those of the blocks after it; and the converter prints the warning whatever follows.
  When moreover no block of the document raises, the text of the remaining blocks is
  what the converter writes, and with the write accepted by the file system the output
  file holds exactly that text and the success line follows the warnings.
\<close>

theorem malformed_blocks_skipped:
  assumes "prepare_output_dir out fs = (fs1, None)" and "read_text fs1 p = Inr content"
    and "i < length (subtitle_blocks content)"
    and "NL \<notin> set (subtitle_blocks content ! i)"
    and "\<forall>j<i. \<not> block_raises (subtitle_blocks content ! j)"
  shows "(let blocks = subtitle_blocks content;
              b = blocks ! i;
              warned = [BlockWarning j (take 50 c). (j, c) \<leftarrow> enumerate 1 (take i blocks), NL \<notin> set c];
              kept = [block_srt j c. (j, c) \<leftarrow> enumerate 1 (take i blocks), NL \<in> set c];
              all_warned = [BlockWarning j (take 50 c). (j, c) \<leftarrow> enumerate 1 blocks, NL \<notin> set c];
              srt = join [NL] [block_srt j c. (j, c) \<leftarrow> enumerate 1 blocks, NL \<in> set c]
          in convert_block (Suc i) b = Inr (Skipped (BlockWarning (Suc i) (take 50 b)))
             \<and> blocks_loop 1 blocks =
                 (case blocks_loop (Suc (Suc i)) (drop (Suc i) blocks) of
                    (ms, Inl e) \<Rightarrow> (warned @ BlockWarning (Suc i) (take 50 b) # ms, Inl e)
                  | (ms, Inr later) \<Rightarrow>
                      (warned @ BlockWarning (Suc i) (take 50 b) # ms, Inr (kept @ later)))
             \<and> (\<exists>fs' ms final. convert_single_sub_to_srt p out fs =
                   (fs', (warned @ BlockWarning (Suc i) (take 50 b) # ms) @ [final], None))
             \<and> ((\<forall>c\<in>set blocks. \<not> block_raises c) \<longrightarrow>
                  srt_of_content content = (all_warned, Inr srt)
                  \<and> (\<forall>fs2. write_text fs1 (srt_file_path p out) srt = Inr fs2 \<longrightarrow>
                        convert_single_sub_to_srt p out fs =
                          (fs1(srt_file_path p out \<mapsto> Text srt),
                           all_warned @ [ConvertOk p (srt_file_path p out)], None))))"
proof -
  let ?blocks = "subtitle_blocks content"
  let ?b = "?blocks ! i"
  let ?warned = "[BlockWarning j (take 50 c). (j, c) \<leftarrow> enumerate 1 (take i ?blocks), NL \<notin> set c]"
  let ?kept = "[block_srt j c. (j, c) \<leftarrow> enumerate 1 (take i ?blocks), NL \<in> set c]"
  let ?all = "[BlockWarning j (take 50 c). (j, c) \<leftarrow> enumerate 1 ?blocks, NL \<notin> set c]"
  let ?srt = "join [NL] [block_srt j c. (j, c) \<leftarrow> enumerate 1 ?blocks, NL \<in> set c]"
  have a: "convert_block (Suc i) ?b = Inr (Skipped (BlockWarning (Suc i) (take 50 ?b)))"
    using assms(4) by (rule convert_block_no_newline)
  have b: "blocks_loop 1 ?blocks =
      (case blocks_loop (Suc (Suc i)) (drop (Suc i) ?blocks) of
         (ms, Inl e) \<Rightarrow> (?warned @ BlockWarning (Suc i) (take 50 ?b) # ms, Inl e)
       | (ms, Inr later) \<Rightarrow> (?warned @ BlockWarning (Suc i) (take 50 ?b) # ms, Inr (?kept @ later)))"
    using assms(3,4,5) by (rule blocks_loop_skip_at)
  have "\<exists>ms. fst (blocks_loop 1 ?blocks) = ?warned @ BlockWarning (Suc i) (take 50 ?b) # ms"
    unfolding b by (auto split: prod.splits sum.splits)
  then obtain ms where m: "fst (srt_of_content content) = ?warned @ BlockWarning (Suc i) (take 50 ?b) # ms"
    unfolding srt_of_content_messages by blast
  from convert_in_try_messages [OF assms(2), of out] obtain fs' final where
    "convert_in_try p out fs1 = (fs', fst (srt_of_content content) @ [final])" by blast
  with m assms(1) have c: "\<exists>fs' ms final. convert_single_sub_to_srt p out fs =
      (fs', (?warned @ BlockWarning (Suc i) (take 50 ?b) # ms) @ [final], None)"
    by (simp add: convert_single_sub_to_srt_def)
  have d: "srt_of_content content = (?all, Inr ?srt)
      \<and> (\<forall>fs2. write_text fs1 (srt_file_path p out) ?srt = Inr fs2 \<longrightarrow>
            convert_single_sub_to_srt p out fs =
              (fs1(srt_file_path p out \<mapsto> Text ?srt), ?all @ [ConvertOk p (srt_file_path p out)], None))"
    if n: "\<forall>c\<in>set ?blocks. \<not> block_raises c"
  proof -
    have s: "srt_of_content content = (?all, Inr ?srt)"
      using blocks_loop_no_raise [OF n, of 1] by (simp add: srt_of_content_def)
    have "convert_single_sub_to_srt p out fs =
              (fs1(srt_file_path p out \<mapsto> Text ?srt), ?all @ [ConvertOk p (srt_file_path p out)], None)"
      if w: "write_text fs1 (srt_file_path p out) ?srt = Inr fs2" for fs2
      using convert_in_try_written [OF assms(2) s w] write_text_result [OF w] assms(1)
      by (simp add: convert_single_sub_to_srt_def)
    with s show ?thesis by blast
  qed
  from a b c d show ?thesis unfolding Let_def by blast
qed

lemma skip_blocks:
  "subtitle_blocks ''This block has no line break and is longer than fifty characters\<newline>\<newline>00:00:01,00:00:02\<newline>kept'' =
     [''This block has no line break and is longer than fifty characters'', ''00:00:01,00:00:02\<newline>kept'']"
  by code_simp

lemma skip_raises:
  "block_raises ''This block has no line break and is longer than fifty characters'' = False"
  "block_raises ''00:00:01,00:00:02\<newline>kept'' = False"
  by code_simp+

lemma skip_srt:
  "block_srt (Suc (Suc 0)) ''00:00:01,00:00:02\<newline>kept'' = ''2\<newline>00:00:01,000 --> 00:00:02,000\<newline>kept\<newline>''"
  by code_simp

lemma skip_cex_srt:
  "srt_of_content ''abc\<newline>\<newline>foo\<newline>bar'' = ([BlockWarning 1 ''abc''], Inl (NotEnoughValues 2 1))"
  "srt_of_content ''foo\<newline>bar\<newline>\<newline>abc'' = ([], Inl (NotEnoughValues 2 1))"
  by code_simp+

lemma late_blocks:
  "subtitle_blocks ''00:00:01,00:00:02\<newline>first\<newline>\<newline>abc\<newline>\<newline>foo\<newline>bar'' =
     [''00:00:01,00:00:02\<newline>first'', ''abc'', ''foo\<newline>bar'']"
  by code_simp

lemma late_raises: "block_raises ''00:00:01,00:00:02\<newline>first'' = False"
  by code_simp

text \<open>
  A block of 64 characters without a newline, then a well-formed block; and a skipped
  block between a well-formed block and one that raises.
\<close>

theorem malformed_blocks_skipped_witness:
  "convert_single_sub_to_srt [''a.sub''] None
     [[''a.sub''] \<mapsto> Text ''This block has no line break and is longer than fifty characters\<newline>\<newline>00:00:01,00:00:02\<newline>kept'']
   = ([[''a.sub''] \<mapsto> Text ''This block has no line break and is longer than fifty characters\<newline>\<newline>00:00:01,00:00:02\<newline>kept'',
       [''a.srt''] \<mapsto> Text ''2\<newline>00:00:01,000 --> 00:00:02,000\<newline>kept\<newline>''],
      [BlockWarning 1 ''This block has no line break and is longer than fi'',
       ConvertOk [''a.sub''] [''a.srt'']], None)
   \<and> (\<exists>fs' ms final. convert_single_sub_to_srt [''a.sub''] None
          [[''a.sub''] \<mapsto> Text ''00:00:01,00:00:02\<newline>first\<newline>\<newline>abc\<newline>\<newline>foo\<newline>bar'']
        = (fs', (BlockWarning 2 ''abc'' # ms) @ [final], None))"
proof -
  have a: "convert_single_sub_to_srt [''a.sub''] None
     [[''a.sub''] \<mapsto> Text ''This block has no line break and is longer than fifty characters\<newline>\<newline>00:00:01,00:00:02\<newline>kept'']
   = ([[''a.sub''] \<mapsto> Text ''This block has no line break and is longer than fifty characters\<newline>\<newline>00:00:01,00:00:02\<newline>kept'',
       [''a.srt''] \<mapsto> Text ''2\<newline>00:00:01,000 --> 00:00:02,000\<newline>kept\<newline>''],
      [BlockWarning 1 ''This block has no line break and is longer than fi'',
       ConvertOk [''a.sub''] [''a.srt'']], None)"
    using malformed_blocks_skipped [of None
      "[[''a.sub''] \<mapsto> Text ''This block has no line break and is longer than fifty characters\<newline>\<newline>00:00:01,00:00:02\<newline>kept'']"
      "[[''a.sub''] \<mapsto> Text ''This block has no line break and is longer than fifty characters\<newline>\<newline>00:00:01,00:00:02\<newline>kept'']"
      "[''a.sub'']"
      "''This block has no line break and is longer than fifty characters\<newline>\<newline>00:00:01,00:00:02\<newline>kept''"
      0]
    by (simp add: skip_blocks skip_raises skip_srt NL_def Let_def prepare_output_dir_def read_text_def
      enumerate_eq_zip write_text_def srt_file_path_def stem_ab parent_def is_dir_def exists_path_def
      upt_rec [of 1] upt_rec [of 2] upt_rec [of 3])
  have b: "\<exists>fs' ms final. convert_single_sub_to_srt [''a.sub''] None
          [[''a.sub''] \<mapsto> Text ''00:00:01,00:00:02\<newline>first\<newline>\<newline>abc\<newline>\<newline>foo\<newline>bar'']
        = (fs', (BlockWarning 2 ''abc'' # ms) @ [final], None)"
    using malformed_blocks_skipped [of None
      "[[''a.sub''] \<mapsto> Text ''00:00:01,00:00:02\<newline>first\<newline>\<newline>abc\<newline>\<newline>foo\<newline>bar'']"
      "[[''a.sub''] \<mapsto> Text ''00:00:01,00:00:02\<newline>first\<newline>\<newline>abc\<newline>\<newline>foo\<newline>bar'']"
      "[''a.sub'']"
      "''00:00:01,00:00:02\<newline>first\<newline>\<newline>abc\<newline>\<newline>foo\<newline>bar''"
      1]
    by (simp add: late_blocks late_raises NL_def Let_def prepare_output_dir_def read_text_def
      enumerate_eq_zip upt_rec [of 1] upt_rec [of 2] numeral_2_eq_2)
  from a b show ?thesis by (rule conjI)
qed

lemma skip_cex_srt3:
  "srt_of_content ''25,00:00:02\<newline>hi\<newline>\<newline>abc'' = ([], Inl (NotEnoughValues 3 1))"
  by code_simp

text \<open>
  C5 for every document fails: a block that raises after the skipped one leaves no
  output file, and one that raises before it, at the comma split or in the time
  formatter, ends the loop before the warning is printed.
\<close>

theorem malformed_blocks_skipped_counterexample:
  "convert_single_sub_to_srt [''a.sub''] None [[''a.sub''] \<mapsto> Text ''abc\<newline>\<newline>foo\<newline>bar'']
   = ([[''a.sub''] \<mapsto> Text ''abc\<newline>\<newline>foo\<newline>bar''],
      [BlockWarning 1 ''abc'', ConvertFailed [''a.sub''] (NotEnoughValues 2 1)], None)
   \<and> convert_single_sub_to_srt [''a.sub''] None [[''a.sub''] \<mapsto> Text ''foo\<newline>bar\<newline>\<newline>abc'']
   = ([[''a.sub''] \<mapsto> Text ''foo\<newline>bar\<newline>\<newline>abc''],
      [ConvertFailed [''a.sub''] (NotEnoughValues 2 1)], None)
   \<and> convert_single_sub_to_srt [''a.sub''] None [[''a.sub''] \<mapsto> Text ''25,00:00:02\<newline>hi\<newline>\<newline>abc'']
   = ([[''a.sub''] \<mapsto> Text ''25,00:00:02\<newline>hi\<newline>\<newline>abc''],
      [ConvertFailed [''a.sub''] (NotEnoughValues 3 1)], None)"
  by (simp add: skip_cex_srt skip_cex_srt3 convert_single_sub_to_srt_def prepare_output_dir_def
      convert_in_try_def read_text_def)

lemma re_split_aux_chars:
  "piece \<in> set (re_split_aux cur s) \<Longrightarrow> set piece \<subseteq> set cur \<union> set s"
proof (induction cur s arbitrary: piece rule: re_split_aux.induct)
  case (1 cur)
  then show ?case by simp
next
  case (2 cur c rest)
  show ?case
  proof (cases "c = NL")
    case False
    with 2 show ?thesis by fastforce
  next
    case True
    show ?thesis
    proof (cases "blank_run rest")
      case None
      with True 2 show ?thesis by fastforce
    next
      case (Some k)
      with True "2.prems" have "piece = rev cur \<or> piece \<in> set (re_split_aux [] (drop k rest))"
        by simp
      then show ?thesis
      proof
        assume "piece = rev cur" then show ?thesis by auto
      next
        assume "piece \<in> set (re_split_aux [] (drop k rest))"
        from "2.IH"(2) [OF True Some this] have "set piece \<subseteq> set (drop k rest)" by simp
        then show ?thesis using set_drop_subset [of k rest] by auto
      qed
    qed
  qed
qed

lemma strip_all_space: "\<forall>c\<in>set s. isspace c \<Longrightarrow> strip s = []"
  by (auto simp: strip_def dest: set_dropWhileD)

lemma subtitle_blocks_all_space:
  assumes "\<forall>c\<in>set content. isspace c"
  shows "subtitle_blocks content = []"
proof -
  have "strip piece = []" if "piece \<in> set (re_split_blank content)" for piece
  proof -
    from that have "set piece \<subseteq> set content"
      using re_split_aux_chars [of piece "[]" content] by (simp add: re_split_blank_def)
    with assms show ?thesis by (intro strip_all_space) auto
  qed
  then show ?thesis by (simp add: subtitle_blocks_def filter_empty_conv)
qed

text \<open>
  C10. When the text is all whitespace, or no block of it holds a newline, and the file
  system accepts the write, the converter writes the empty string to the output path and
  prints the success line after the warnings, one per block.
\<close>

theorem empty_document_written:
  assumes "(\<forall>c\<in>set content. isspace c) \<or> (\<forall>b\<in>set (subtitle_blocks content). NL \<notin> set b)"
    and "prepare_output_dir out fs = (fs1, None)" and "read_text fs1 p = Inr content"
    and "write_text fs1 (srt_file_path p out) [] = Inr fs2"
  shows "convert_single_sub_to_srt p out fs =
           (fs1(srt_file_path p out \<mapsto> Text []),
            [BlockWarning i (take 50 b). (i, b) \<leftarrow> enumerate 1 (subtitle_blocks content)]
              @ [ConvertOk p (srt_file_path p out)], None)"
proof -
  have n: "\<forall>b\<in>set (subtitle_blocks content). NL \<notin> set b"
    using assms(1) subtitle_blocks_all_space by fastforce
  have "blocks_loop k blocks = ([BlockWarning i (take 50 b). (i, b) \<leftarrow> enumerate k blocks], Inr [])"
    if "\<forall>b\<in>set blocks. NL \<notin> set b" for k blocks
    using that by (induction blocks arbitrary: k) (simp_all add: convert_block_no_newline)
  from this [OF n, of 1] have s: "srt_of_content content =
     ([BlockWarning i (take 50 b). (i, b) \<leftarrow> enumerate 1 (subtitle_blocks content)], Inr [])"
    by (simp add: srt_of_content_def)
  from convert_in_try_written [OF assms(3) s assms(4)] write_text_result [OF assms(4)] assms(2)
  show ?thesis by (simp add: convert_single_sub_to_srt_def)
qed

lemma blank_blocks: "subtitle_blocks '' \<newline>\<newline>  '' = []" "subtitle_blocks [] = []"
  by code_simp+

lemma unsplit_blocks: "subtitle_blocks ''first\<newline>\<newline>second'' = [''first'', ''second'']"
  by code_simp

text \<open>A whitespace-only file, an empty file, and a file of two blocks without a newline.\<close>

theorem empty_document_written_witness:
  "convert_single_sub_to_srt [''a.sub''] None [[''a.sub''] \<mapsto> Text '' \<newline>\<newline>  '']
   = ([[''a.sub''] \<mapsto> Text '' \<newline>\<newline>  '', [''a.srt''] \<mapsto> Text []],
      [ConvertOk [''a.sub''] [''a.srt'']], None)
   \<and> convert_single_sub_to_srt [''a.sub''] None [[''a.sub''] \<mapsto> Text []]
   = ([[''a.sub''] \<mapsto> Text [], [''a.srt''] \<mapsto> Text []],
      [ConvertOk [''a.sub''] [''a.srt'']], None)
   \<and> convert_single_sub_to_srt [''a.sub''] None [[''a.sub''] \<mapsto> Text ''first\<newline>\<newline>second'']
   = ([[''a.sub''] \<mapsto> Text ''first\<newline>\<newline>second'', [''a.srt''] \<mapsto> Text []],
      [BlockWarning 1 ''first'', BlockWarning 2 ''second'', ConvertOk [''a.sub''] [''a.srt'']], None)"
  using empty_document_written [of "'' \<newline>\<newline>  ''" None "[[''a.sub''] \<mapsto> Text '' \<newline>\<newline>  '']"
      "[[''a.sub''] \<mapsto> Text '' \<newline>\<newline>  '']" "[''a.sub'']"
      "[[''a.sub''] \<mapsto> Text '' \<newline>\<newline>  '', [''a.srt''] \<mapsto> Text []]"]
    empty_document_written [of "[]" None "[[''a.sub''] \<mapsto> Text []]"
      "[[''a.sub''] \<mapsto> Text []]" "[''a.sub'']"
      "[[''a.sub''] \<mapsto> Text [], [''a.srt''] \<mapsto> Text []]"]
    empty_document_written [of "''first\<newline>\<newline>second''" None "[[''a.sub''] \<mapsto> Text ''first\<newline>\<newline>second'']"
      "[[''a.sub''] \<mapsto> Text ''first\<newline>\<newline>second'']" "[''a.sub'']"
      "[[''a.sub''] \<mapsto> Text ''first\<newline>\<newline>second'', [''a.srt''] \<mapsto> Text []]"]
  by (simp add: blank_blocks unsplit_blocks isspace_def NL_def prepare_output_dir_def read_text_def
      write_text_def srt_file_path_def stem_ab parent_def is_dir_def exists_path_def
      enumerate_eq_zip upt_rec [of 1] upt_rec [of 2] upt_rec [of 3])

section \<open>Running the batch twice\<close>

lemma makedirs_rev_success_dir:
  "makedirs_rev r fs = (fs1, None) \<Longrightarrow> r \<noteq> [] \<Longrightarrow> fs1 (rev r) = Some Dir"
  by (cases r) (auto simp: is_dir_def split: if_splits prod.splits option.splits sum.splits dest: mkdir_result)

lemma makedirs_rev_beyond:
  "makedirs_rev r fs = (fs1, res) \<Longrightarrow> length r < length q \<Longrightarrow> fs1 q = fs q"
proof (induction r arbitrary: fs fs1 res)
  case Nil then show ?case by simp
next
  case (Cons tail rhead)
  obtain fsA resA where inner:
    "(if rhead \<noteq> [] \<and> \<not> exists_path fs (rev rhead) then makedirs_rev rhead fs else (fs, None)) = (fsA, resA)"
    by (cases "(if rhead \<noteq> [] \<and> \<not> exists_path fs (rev rhead) then makedirs_rev rhead fs else (fs, None))") auto
  have A: "fsA q = fs q"
    using inner Cons.IH [of fs fsA resA] Cons.prems(2) by (auto split: if_splits)
  show ?case
  proof (cases resA)
    case (Some e)
    with Cons.prems inner have "fs1 = fsA" by simp
    with A show ?thesis by simp
  next
    case None
    show ?thesis
    proof (cases "mkdir (rev (tail # rhead)) fsA")
      case (Inl e)
      with Cons.prems inner None have "fs1 = fsA" by (auto split: if_splits)
      with A show ?thesis by simp
    next
      case (Inr fs2)
      with Cons.prems inner None have "fs1 = fs2" by auto
      with mkdir_result [OF Inr] A Cons.prems(2) show ?thesis by auto
    qed
  qed
qed

lemma makedirs_rev_failure_keeps_target:
  assumes "makedirs_rev r fs = (fs1, Some e)"
  shows "fs1 (rev r) = fs (rev r)"
proof (cases r)
  case Nil with assms show ?thesis by simp
next
  case (Cons tail rhead)
  obtain fsA resA where inner:
    "(if rhead \<noteq> [] \<and> \<not> exists_path fs (rev rhead) then makedirs_rev rhead fs else (fs, None)) = (fsA, resA)"
    by (cases "(if rhead \<noteq> [] \<and> \<not> exists_path fs (rev rhead) then makedirs_rev rhead fs else (fs, None))") auto
  have A: "fsA (rev r) = fs (rev r)"
    using inner makedirs_rev_beyond [of rhead fs fsA resA "rev r"] Cons by (auto split: if_splits)
  have "fs1 = fsA"
    using assms inner Cons by (auto split: option.splits sum.splits if_splits)
  with A show ?thesis by simp
qed

lemma makedirs_rev_failure_again:
  "makedirs_rev r fs = (fs1, Some e) \<Longrightarrow> \<exists>e'. makedirs_rev r fs1 = (fs1, Some e')"
proof (induction r arbitrary: fs fs1 e)
  case Nil then show ?case by simp
next
  case (Cons tail rhead)
  show ?case
  proof (cases "rhead \<noteq> [] \<and> \<not> exists_path fs (rev rhead)")
    case False
    with Cons.prems have "fs1 = fs"
      by (auto split: sum.splits if_splits)
    with Cons.prems show ?thesis by blast
  next
    case True
    obtain fsA resA where inner: "makedirs_rev rhead fs = (fsA, resA)"
      by (cases "makedirs_rev rhead fs") auto
    show ?thesis
    proof (cases resA)
      case (Some eA)
      with Cons.prems True inner have f: "fs1 = fsA" by simp
      from makedirs_rev_failure_keeps_target [of rhead fs fsA eA] inner Some
      have "fsA (rev rhead) = fs (rev rhead)" by simp
      with True have c: "rhead \<noteq> [] \<and> \<not> exists_path fsA (rev rhead)"
        by (simp add: exists_path_def)
      from Cons.IH [of fs fsA eA] inner Some obtain e' where "makedirs_rev rhead fsA = (fsA, Some e')"
        by auto
      with c f show ?thesis by simp
    next
      case None
      from makedirs_rev_success_dir [of rhead fs fsA] inner None True
      have d: "fsA (rev rhead) = Some Dir" by simp
      then have c: "\<not> (rhead \<noteq> [] \<and> \<not> exists_path fsA (rev rhead))"
        by (simp add: exists_path_def)
      from Cons.prems True inner None have m: "fs1 = fsA \<and>
          (case mkdir (rev (tail # rhead)) fsA of Inr fs2 \<Rightarrow> (fs2, None)
           | Inl e \<Rightarrow> if is_dir fsA (rev (tail # rhead)) then (fsA, None) else (fsA, Some e)) = (fsA, Some e)"
        by (auto split: sum.splits if_splits)
      with c show ?thesis by auto
    qed
  qed
qed

lemma prepare_failure_again:
  "prepare_output_dir out fs = (fs1, Some e) \<Longrightarrow> \<exists>e'. prepare_output_dir out fs1 = (fs1, Some e')"
  using makedirs_rev_failure_again
  by (auto simp: prepare_output_dir_def makedirs_def split: option.splits)

lemma prepare_ready_noop: "dir_ready fs out \<Longrightarrow> prepare_output_dir out fs = (fs, None)"
proof (cases out)
  case None then show ?thesis by (simp add: prepare_output_dir_def)
next
  case (Some d)
  assume r: "dir_ready fs out"
  show ?thesis
  proof (cases "rev d")
    case Nil with Some show ?thesis by (simp add: prepare_output_dir_def makedirs_def)
  next
    case (Cons tail rhead)
    then have d: "d = rev rhead @ [tail]" by (metis rev.simps(2) rev_rev_ident)
    with r Some have "fs d = Some Dir" "rhead = [] \<or> fs (rev rhead) \<noteq> None"
      by (auto simp: dir_ready_def)
    then show ?thesis using Some Cons d
      by (auto simp: prepare_output_dir_def makedirs_def mkdir_def exists_path_def is_dir_def)
  qed
qed

lemma prepare_gives_ready:
  assumes "prepare_output_dir out fs = (fs1, None)"
  shows "dir_ready fs1 out"
proof (cases out)
  case None then show ?thesis by (simp add: dir_ready_def)
next
  case (Some d)
  with assms have m: "makedirs_rev (rev d) fs = (fs1, None)"
    by (simp add: prepare_output_dir_def makedirs_def)
  show ?thesis
  proof (cases "rev d")
    case Nil with Some show ?thesis by (simp add: dir_ready_def)
  next
    case (Cons tail rhead)
    then have d: "d = rev rhead @ [tail]" by (metis rev.simps(2) rev_rev_ident)
    from makedirs_rev_success_dir [OF m] Cons have t: "fs1 d = Some Dir" by simp
    have "rhead = [] \<or> fs1 (rev rhead) \<noteq> None"
    proof (cases "rhead = []")
      case True then show ?thesis by simp
    next
      case False
      have "fs (rev rhead) \<noteq> None \<or> (\<exists>fsA. makedirs_rev rhead fs = (fsA, None) \<and> (fs1 = fsA \<or> fs1 = fsA(d \<mapsto> Dir)))"
        using m Cons False d
        by (auto simp: exists_path_def split: if_splits prod.splits option.splits sum.splits dest: mkdir_result)
      then show ?thesis
      proof
        assume "fs (rev rhead) \<noteq> None"
        with makedirs_rev_only_new_dirs [OF m, of "rev rhead"] show ?thesis by auto
      next
        assume "\<exists>fsA. makedirs_rev rhead fs = (fsA, None) \<and> (fs1 = fsA \<or> fs1 = fsA(d \<mapsto> Dir))"
        then obtain fsA where a: "makedirs_rev rhead fs = (fsA, None)" "fs1 = fsA \<or> fs1 = fsA(d \<mapsto> Dir)"
          by blast
        from makedirs_rev_success_dir [OF a(1) False] have "fsA (rev rhead) = Some Dir" .
        with a(2) show ?thesis by auto
      qed
    qed
    with t Some d show ?thesis by (simp add: dir_ready_def)
  qed
qed

lemma sub_not_srt: "ends_with s ''.sub'' \<Longrightarrow> \<not> ends_with s ''.srt''"
  by (auto simp: ends_with_def)

lemma srt_file_path_named: "ends_with (name_of (srt_file_path p out)) ''.srt''"
  by (simp add: srt_file_path_def name_of_def ends_with_def)

lemma outputs_added_refl: "outputs_added fs fs"
  by (simp add: outputs_added_def)

lemma outputs_added_is_dir: "outputs_added A X \<Longrightarrow> is_dir X q = is_dir A q"
  unfolding outputs_added_def is_dir_def by (metis node.distinct(1) option.inject)

lemma outputs_added_input:
  "outputs_added A X \<Longrightarrow> ends_with (name_of f) ''.sub'' \<Longrightarrow> X f = A f"
  unfolding outputs_added_def using sub_not_srt by metis

lemma read_text_same_entry:
  "X f = A f \<Longrightarrow>
   (\<exists>c. read_text X f = Inr c \<and> read_text A f = Inr c) \<or>
   ((\<exists>e. read_text X f = Inl e) \<and> (\<exists>e. read_text A f = Inl e))"
  by (auto simp: read_text_def split: option.splits node.splits)

lemma readable_same_entry: "X f = A f \<Longrightarrow> readable X f = readable A f"
  using read_text_same_entry [of X f A] by (auto simp: readable_def)

lemma write_text_cases:
  "write_text fs p c = (if \<not> is_dir fs p \<and> is_dir fs (parent p) then Inr (fs(p \<mapsto> Text c))
     else Inl (if is_dir fs p then IsADirectoryError p
               else if \<not> exists_path fs (parent p) then unreachable_error fs p
               else NotADirectoryError p))"
  by (auto simp: write_text_def is_dir_def exists_path_def)

lemma convert_in_try_planned:
  assumes "outputs_added A X" "ends_with (name_of f) ''.sub''"
  shows "fst (convert_in_try f out X) = X ++ planned_write A out f"
proof -
  have "X f = A f" using assms by (rule outputs_added_input)
  then have r: "(\<exists>c. read_text X f = Inr c \<and> read_text A f = Inr c) \<or>
      ((\<exists>e. read_text X f = Inl e) \<and> (\<exists>e. read_text A f = Inl e))"
    by (rule read_text_same_entry)
  have d: "is_dir X q = is_dir A q" for q using assms(1) by (rule outputs_added_is_dir)
  from r show ?thesis
  proof
    assume "\<exists>c. read_text X f = Inr c \<and> read_text A f = Inr c"
    then obtain c where "read_text X f = Inr c" "read_text A f = Inr c" by blast
    then show ?thesis
      unfolding convert_in_try_def planned_write_def
      by (auto simp: write_text_cases d split: sum.splits prod.splits)
  next
    assume "(\<exists>e. read_text X f = Inl e) \<and> (\<exists>e. read_text A f = Inl e)"
    then obtain e e' where "read_text X f = Inl e" "read_text A f = Inl e'" by blast
    then show ?thesis
      unfolding convert_in_try_def planned_write_def by simp
  qed
qed

lemma planned_write_keeps_outputs_added:
  assumes "outputs_added A X"
  shows "outputs_added A (X ++ planned_write A out f)"
proof -
  have "planned_write A out f = Map.empty \<or>
        (\<exists>s. planned_write A out f = [srt_file_path f out \<mapsto> Text s] \<and> \<not> is_dir A (srt_file_path f out))"
    by (auto simp: planned_write_def write_text_cases split: sum.splits prod.splits)
  then show ?thesis
  proof
    assume "planned_write A out f = Map.empty" with assms show ?thesis by simp
  next
    assume "\<exists>s. planned_write A out f = [srt_file_path f out \<mapsto> Text s] \<and> \<not> is_dir A (srt_file_path f out)"
    then obtain s where p: "planned_write A out f = [srt_file_path f out \<mapsto> Text s]"
      and n: "\<not> is_dir A (srt_file_path f out)" by blast
    from n have "A (srt_file_path f out) \<noteq> Some Dir" by (simp add: is_dir_def)
    with assms srt_file_path_named [of f out] show ?thesis
      unfolding outputs_added_def p by (auto simp: map_add_def)
  qed
qed

lemma planned_write_keeps_ready:
  assumes "dir_ready X out"
  shows "dir_ready (X ++ planned_write A out f) out"
proof -
  have "planned_write A out f = Map.empty \<or> (\<exists>s. planned_write A out f = [srt_file_path f out \<mapsto> Text s])"
    by (auto simp: planned_write_def split: sum.splits prod.splits)
  then show ?thesis
  proof
    assume "planned_write A out f = Map.empty" with assms show ?thesis by simp
  next
    assume "\<exists>s. planned_write A out f = [srt_file_path f out \<mapsto> Text s]"
    then obtain s where p: "planned_write A out f = [srt_file_path f out \<mapsto> Text s]" by blast
    show ?thesis
    proof (cases out)
      case None then show ?thesis by (simp add: dir_ready_def)
    next
      case (Some d)
      have "srt_file_path f out \<noteq> d" "srt_file_path f out \<noteq> butlast d"
        using Some by (auto simp: srt_file_path_def dest: arg_cong [where f = length])
      with assms Some p show ?thesis by (auto simp: dir_ready_def map_add_def)
    qed
  qed
qed

lemma convert_single_planned:
  assumes "dir_ready X out" "outputs_added A X" "ends_with (name_of f) ''.sub''"
  shows "\<exists>ms. convert_single_sub_to_srt f out X = (X ++ planned_write A out f, ms, None)"
proof -
  from convert_in_try_planned [OF assms(2,3), of out] obtain ms where
    "convert_in_try f out X = (X ++ planned_write A out f, ms)"
    by (cases "convert_in_try f out X") auto
  with prepare_ready_noop [OF assms(1)] show ?thesis
    by (simp add: convert_single_sub_to_srt_def)
qed

lemma convert_all_planned:
  assumes "dir_ready X out" "outputs_added A X" "\<forall>f\<in>set files. ends_with (name_of f) ''.sub''"
  shows "\<exists>ms. convert_all files out X = (fold (\<lambda>f Y. Y ++ planned_write A out f) files X, ms, None)"
  using assms
proof (induction files arbitrary: X)
  case Nil then show ?case by simp
next
  case (Cons f files)
  from convert_single_planned [OF Cons.prems(1,2)] Cons.prems(3) obtain ms where
    c: "convert_single_sub_to_srt f out X = (X ++ planned_write A out f, ms, None)" by auto
  have "\<exists>ms. convert_all files out (X ++ planned_write A out f) =
      (fold (\<lambda>f Y. Y ++ planned_write A out f) files (X ++ planned_write A out f), ms, None)"
    using Cons.prems by (intro Cons.IH planned_write_keeps_ready planned_write_keeps_outputs_added) auto
  with c show ?case by auto
qed

lemma fold_planned_add:
  "fold (\<lambda>f Y. Y ++ pw f) files X = X ++ fold (\<lambda>f Y. Y ++ pw f) files Map.empty"
proof (induction files arbitrary: X)
  case Nil then show ?case by simp
next
  case (Cons f files)
  have "fold (\<lambda>f Y. Y ++ pw f) (f # files) X = (X ++ pw f) ++ fold (\<lambda>f Y. Y ++ pw f) files Map.empty"
    using Cons.IH [of "X ++ pw f"] by simp
  also have "\<dots> = X ++ (pw f ++ fold (\<lambda>f Y. Y ++ pw f) files Map.empty)" by simp
  also have "pw f ++ fold (\<lambda>f Y. Y ++ pw f) files Map.empty = fold (\<lambda>f Y. Y ++ pw f) (f # files) Map.empty"
    using Cons.IH [of "Map.empty ++ pw f"] by simp
  finally show ?case .
qed

lemma map_add_self: "m ++ m = (m :: 'a \<rightharpoonup> 'b)"
  by (simp add: map_add_def fun_eq_iff split: option.splits)

lemma fold_planned_twice:
  "fold (\<lambda>f Y. Y ++ pw f) files (fold (\<lambda>f Y. Y ++ pw f) files X) = fold (\<lambda>f Y. Y ++ pw f) files X"
proof -
  let ?M = "fold (\<lambda>f Y. Y ++ pw f) files Map.empty"
  have a: "fold (\<lambda>f Y. Y ++ pw f) files X = X ++ ?M" by (rule fold_planned_add)
  have "fold (\<lambda>f Y. Y ++ pw f) files (X ++ ?M) = (X ++ ?M) ++ ?M" by (rule fold_planned_add)
  also have "\<dots> = X ++ (?M ++ ?M)" by (simp only: map_add_assoc)
  also have "\<dots> = X ++ ?M" by (simp only: map_add_self)
  finally show ?thesis by (simp only: a)
qed

lemma planned_write_unreadable: "\<not> readable A f \<Longrightarrow> planned_write A out f = Map.empty"
  by (auto simp: readable_def planned_write_def split: sum.splits)

lemma fold_planned_readable:
  "fold (\<lambda>f Y. Y ++ planned_write A out f) files X =
   fold (\<lambda>f Y. Y ++ planned_write A out f) (filter (readable A) files) X"
  by (induction files arbitrary: X) (simp_all add: planned_write_unreadable)

lemma fold_planned_outputs_added:
  "outputs_added A X \<Longrightarrow> outputs_added A (fold (\<lambda>f Y. Y ++ planned_write A out f) files X)"
  by (induction files arbitrary: X) (simp_all add: planned_write_keeps_outputs_added)

lemma fold_planned_ready:
  "dir_ready X out \<Longrightarrow> dir_ready (fold (\<lambda>f Y. Y ++ planned_write A out f) files X) out"
  by (induction files arbitrary: X) (simp_all add: planned_write_keeps_ready)

lemma glob_sub_named: "glob_sub fs d files \<Longrightarrow> f \<in> set files \<Longrightarrow> ends_with (name_of f) ''.sub''"
  by (auto simp: glob_sub_def)

lemma new_dirs_readable:
  assumes "\<forall>q. A q = fs q \<or> (fs q = None \<and> A q = Some Dir)"
  shows "readable A f = readable fs f"
proof -
  from assms have "A f = fs f \<or> (fs f = None \<and> A f = Some Dir)" by blast
  then show ?thesis
    by (auto simp: readable_def read_text_def split: option.splits node.splits)
qed

lemma new_dirs_is_dir:
  assumes "\<forall>q. A q = fs q \<or> (fs q = None \<and> A q = Some Dir)" "is_dir fs p"
  shows "is_dir A p"
proof -
  from assms(1) have "A p = fs p \<or> (fs p = None \<and> A p = Some Dir)" by blast
  with assms(2) show ?thesis by (auto simp: is_dir_def)
qed

lemma is_dir_not_is_file: "is_dir fs p \<Longrightarrow> \<not> is_file fs p"
  by (auto simp: is_dir_def is_file_def)

lemma glob_sub_grows:
  assumes "glob_sub fs d files" "glob_sub fs1 d files'" "\<forall>q. fs q \<noteq> None \<longrightarrow> fs1 q \<noteq> None"
  shows "set files \<subseteq> set files'"
  using assms by (auto simp: glob_sub_def)

lemma convert_all_after_prepare:
  assumes "prepare_output_dir out fs = (A, None)" "files \<noteq> []"
  shows "convert_all files out fs = convert_all files out A"
proof -
  from assms(2) obtain f rest where f: "files = f # rest" by (cases files) auto
  have "prepare_output_dir out A = (A, None)"
    using prepare_gives_ready [OF assms(1)] by (rule prepare_ready_noop)
  with assms(1) have "convert_single_sub_to_srt f out fs = convert_single_sub_to_srt f out A"
    by (simp add: convert_single_sub_to_srt_def)
  with f show ?thesis by simp
qed

text \<open>
  C9. Let the batch converter run on a directory, and run again with the same arguments
  on the file system the first run left, the operating system listing the readable
  \<open>.sub\<close> files in the same order both times. Then the second run leaves the file system
  as it found it: every output file holds what the first run wrote. A conversion reads
  only \<open>.sub\<close> files, which no run writes, and stores its result at the \<open>.srt\<close> path
  whatever was there.
\<close>

theorem batch_conversion_idempotent:
  assumes d: "is_dir fs input_path"
    and g1: "glob_sub fs input_path sub_files"
    and run: "batch_convert_sub_to_srt input_path output_dir sub_files fs = (fs1, ms1, r1)"
    and g2: "glob_sub fs1 input_path sub_files'"
    and ord: "filter (readable fs1) sub_files' = filter (readable fs) sub_files"
  shows "\<exists>ms2 r2. batch_convert_sub_to_srt input_path output_dir sub_files' fs1 = (fs1, ms2, r2)"
proof (cases "sub_files = []")
  case True
  with run d have e: "fs1 = fs" by (simp add: batch_convert_sub_to_srt_def is_dir_not_is_file)
  with g1 g2 True have "set sub_files' = {}" by (simp add: glob_sub_def)
  then have "sub_files' = []" by simp
  with e d show ?thesis by (simp add: batch_convert_sub_to_srt_def is_dir_not_is_file)
next
  case False
  then obtain f rest where fr: "sub_files = f # rest" by (cases sub_files) auto
  from run d False obtain ms where c1: "convert_all sub_files output_dir fs = (fs1, ms, r1)"
    by (auto simp: batch_convert_sub_to_srt_def is_dir_not_is_file split: prod.splits)
  obtain A res where p: "prepare_output_dir output_dir fs = (A, res)"
    by (cases "prepare_output_dir output_dir fs") auto
  have nd: "\<forall>q. A q = fs q \<or> (fs q = None \<and> A q = Some Dir)"
    using prepare_output_dir_only_new_dirs [OF p] by blast
  show ?thesis
  proof (cases res)
    case (Some e)
    with c1 p fr have e1: "fs1 = A" by (simp add: convert_single_sub_to_srt_def)
    from nd have "\<forall>q. fs q \<noteq> None \<longrightarrow> A q \<noteq> None" by (metis option.distinct(1))
    with glob_sub_grows [OF g1 g2 [unfolded e1]] fr have "sub_files' \<noteq> []" by auto
    then obtain f' rest' where fr': "sub_files' = f' # rest'" by (cases sub_files') auto
    from prepare_failure_again p Some obtain e' where
      "prepare_output_dir output_dir A = (A, Some e')" by blast
    then have "convert_all sub_files' output_dir A = (A, [], Some e')"
      using fr' by (simp add: convert_single_sub_to_srt_def)
    moreover have "is_dir A input_path" using nd d by (rule new_dirs_is_dir)
    ultimately show ?thesis
      using e1 fr' by (simp add: batch_convert_sub_to_srt_def is_dir_not_is_file)
  next
    case None
    let ?pw = "\<lambda>f Y. Y ++ planned_write A output_dir f"
    have ready: "dir_ready A output_dir" using p None prepare_gives_ready by simp
    have n1: "\<forall>f\<in>set sub_files. ends_with (name_of f) ''.sub''"
      using g1 glob_sub_named by blast
    have n2: "\<forall>f\<in>set sub_files'. ends_with (name_of f) ''.sub''"
      using g2 glob_sub_named by blast
    have "convert_all sub_files output_dir fs = convert_all sub_files output_dir A"
      using p None False convert_all_after_prepare by simp
    with c1 convert_all_planned [OF ready outputs_added_refl n1]
    have e1: "fs1 = fold ?pw sub_files A" by auto
    have oa: "outputs_added A fs1"
      unfolding e1 using outputs_added_refl by (rule fold_planned_outputs_added)
    have r1: "dir_ready fs1 output_dir"
      unfolding e1 using ready by (rule fold_planned_ready)
    have dd: "is_dir fs1 input_path"
      using oa nd d by (simp add: outputs_added_is_dir new_dirs_is_dir)
    show ?thesis
    proof (cases "sub_files' = []")
      case True
      with dd show ?thesis by (simp add: batch_convert_sub_to_srt_def is_dir_not_is_file)
    next
      case False
      from convert_all_planned [OF r1 oa n2] obtain ms2 where
        c2: "convert_all sub_files' output_dir fs1 = (fold ?pw sub_files' fs1, ms2, None)" by blast
      have "filter (readable A) sub_files' = filter (readable fs1) sub_files'"
      proof (rule filter_cong [OF refl])
        fix x assume "x \<in> set sub_files'"
        with n2 have "ends_with (name_of x) ''.sub''" by blast
        from outputs_added_input [OF oa this] have "fs1 x = A x" .
        then have "readable fs1 x = readable A x" by (rule readable_same_entry [of fs1 x A])
        then show "readable A x = readable fs1 x" by (rule sym)
      qed
      also have "\<dots> = filter (readable fs) sub_files" by (rule ord)
      also have "\<dots> = filter (readable A) sub_files"
        using new_dirs_readable [OF nd] by (intro filter_cong) auto
      finally have fl: "filter (readable A) sub_files' = filter (readable A) sub_files" .
      have "fold ?pw sub_files' fs1 = fold ?pw (filter (readable A) sub_files') fs1"
        by (rule fold_planned_readable)
      also have "\<dots> = fold ?pw (filter (readable A) sub_files) (fold ?pw (filter (readable A) sub_files) A)"
        unfolding fl e1 using fold_planned_readable [of A output_dir sub_files A] by simp
      also have "\<dots> = fold ?pw (filter (readable A) sub_files) A"
        by (rule fold_planned_twice)
      also have "\<dots> = fs1"
        unfolding e1 using fold_planned_readable [of A output_dir sub_files A] by simp
      finally have "fold ?pw sub_files' fs1 = fs1" .
      with c2 dd False show ?thesis
        by (simp add: batch_convert_sub_to_srt_def is_dir_not_is_file)
    qed
  qed
qed

lemma two_srt:
  "srt_of_content ''00:00:01,00:00:02\<newline>one'' = ([], Inr ''1\<newline>00:00:01,000 --> 00:00:02,000\<newline>one\<newline>'')"
  "srt_of_content ''00:00:03,00:00:04\<newline>two'' = ([], Inr ''1\<newline>00:00:03,000 --> 00:00:04,000\<newline>two\<newline>'')"
  by code_simp+

lemma two_stems: "stem [''in'', ''x'', ''a.sub''] = ''a''" "stem [''in'', ''y'', ''a.sub''] = ''a''"
  by (simp_all add: stem_def name_of_def)

lemma two_run:
  "batch_convert_sub_to_srt [''in''] (Some [''out'']) [[''in'', ''x'', ''a.sub''], [''in'', ''y'', ''a.sub'']]
     [[''in''] \<mapsto> Dir, [''in'', ''x''] \<mapsto> Dir, [''in'', ''y''] \<mapsto> Dir,
      [''in'', ''x'', ''a.sub''] \<mapsto> Text ''00:00:01,00:00:02\<newline>one'',
      [''in'', ''y'', ''a.sub''] \<mapsto> Text ''00:00:03,00:00:04\<newline>two'']
   = ([[''in''] \<mapsto> Dir, [''in'', ''x''] \<mapsto> Dir, [''in'', ''y''] \<mapsto> Dir,
       [''in'', ''x'', ''a.sub''] \<mapsto> Text ''00:00:01,00:00:02\<newline>one'',
       [''in'', ''y'', ''a.sub''] \<mapsto> Text ''00:00:03,00:00:04\<newline>two'',
       [''out''] \<mapsto> Dir,
       [''out'', ''a.srt''] \<mapsto> Text ''1\<newline>00:00:03,000 --> 00:00:04,000\<newline>two\<newline>''],
      [FoundSubFiles 2,
       ConvertOk [''in'', ''x'', ''a.sub''] [''out'', ''a.srt''],
       ConvertOk [''in'', ''y'', ''a.sub''] [''out'', ''a.srt'']], None)"
  by (simp add: batch_convert_sub_to_srt_def is_file_def is_dir_def convert_single_sub_to_srt_def
      prepare_output_dir_def makedirs_def mkdir_def exists_path_def parent_def convert_in_try_def
      read_text_def two_srt write_text_def srt_file_path_def two_stems)

lemma two_glob:
  "glob_sub [[''in''] \<mapsto> Dir, [''in'', ''x''] \<mapsto> Dir, [''in'', ''y''] \<mapsto> Dir,
      [''in'', ''x'', ''a.sub''] \<mapsto> Text ''00:00:01,00:00:02\<newline>one'',
      [''in'', ''y'', ''a.sub''] \<mapsto> Text ''00:00:03,00:00:04\<newline>two'']
     [''in''] [[''in'', ''x'', ''a.sub''], [''in'', ''y'', ''a.sub'']]"
  by (auto simp: glob_sub_def ends_with_def name_of_def split: if_splits)

lemma two_glob_after:
  "glob_sub [[''in''] \<mapsto> Dir, [''in'', ''x''] \<mapsto> Dir, [''in'', ''y''] \<mapsto> Dir,
       [''in'', ''x'', ''a.sub''] \<mapsto> Text ''00:00:01,00:00:02\<newline>one'',
       [''in'', ''y'', ''a.sub''] \<mapsto> Text ''00:00:03,00:00:04\<newline>two'',
       [''out''] \<mapsto> Dir,
       [''out'', ''a.srt''] \<mapsto> Text ''1\<newline>00:00:03,000 --> 00:00:04,000\<newline>two\<newline>'']
     [''in''] [[''in'', ''x'', ''a.sub''], [''in'', ''y'', ''a.sub'']]"
  by (auto simp: glob_sub_def ends_with_def name_of_def split: if_splits)

lemma two_order:
  "filter (readable [[''in''] \<mapsto> Dir, [''in'', ''x''] \<mapsto> Dir, [''in'', ''y''] \<mapsto> Dir,
       [''in'', ''x'', ''a.sub''] \<mapsto> Text ''00:00:01,00:00:02\<newline>one'',
       [''in'', ''y'', ''a.sub''] \<mapsto> Text ''00:00:03,00:00:04\<newline>two'',
       [''out''] \<mapsto> Dir,
       [''out'', ''a.srt''] \<mapsto> Text ''1\<newline>00:00:03,000 --> 00:00:04,000\<newline>two\<newline>''])
     [[''in'', ''x'', ''a.sub''], [''in'', ''y'', ''a.sub'']]
   = filter (readable [[''in''] \<mapsto> Dir, [''in'', ''x''] \<mapsto> Dir, [''in'', ''y''] \<mapsto> Dir,
      [''in'', ''x'', ''a.sub''] \<mapsto> Text ''00:00:01,00:00:02\<newline>one'',
      [''in'', ''y'', ''a.sub''] \<mapsto> Text ''00:00:03,00:00:04\<newline>two''])
     [[''in'', ''x'', ''a.sub''], [''in'', ''y'', ''a.sub'']]"
  by (simp add: readable_def read_text_def)

lemma two_dir:
  "is_dir [[''in''] \<mapsto> Dir, [''in'', ''x''] \<mapsto> Dir, [''in'', ''y''] \<mapsto> Dir,
      [''in'', ''x'', ''a.sub''] \<mapsto> Text ''00:00:01,00:00:02\<newline>one'',
      [''in'', ''y'', ''a.sub''] \<mapsto> Text ''00:00:03,00:00:04\<newline>two''] [''in'']"
  by (simp add: is_dir_def)

text \<open>
  Two input files with the same stem in two subdirectories, one output directory: both
  runs end with the text of the second file in \<open>out/a.srt\<close>.
\<close>

theorem batch_conversion_idempotent_witness:
  "batch_convert_sub_to_srt [''in''] (Some [''out'']) [[''in'', ''x'', ''a.sub''], [''in'', ''y'', ''a.sub'']]
     [[''in''] \<mapsto> Dir, [''in'', ''x''] \<mapsto> Dir, [''in'', ''y''] \<mapsto> Dir,
      [''in'', ''x'', ''a.sub''] \<mapsto> Text ''00:00:01,00:00:02\<newline>one'',
      [''in'', ''y'', ''a.sub''] \<mapsto> Text ''00:00:03,00:00:04\<newline>two'']
   = ([[''in''] \<mapsto> Dir, [''in'', ''x''] \<mapsto> Dir, [''in'', ''y''] \<mapsto> Dir,
       [''in'', ''x'', ''a.sub''] \<mapsto> Text ''00:00:01,00:00:02\<newline>one'',
       [''in'', ''y'', ''a.sub''] \<mapsto> Text ''00:00:03,00:00:04\<newline>two'',
       [''out''] \<mapsto> Dir,
       [''out'', ''a.srt''] \<mapsto> Text ''1\<newline>00:00:03,000 --> 00:00:04,000\<newline>two\<newline>''],
      [FoundSubFiles 2,
       ConvertOk [''in'', ''x'', ''a.sub''] [''out'', ''a.srt''],
       ConvertOk [''in'', ''y'', ''a.sub''] [''out'', ''a.srt'']], None)
   \<and> (\<exists>ms2 r2.
        batch_convert_sub_to_srt [''in''] (Some [''out'']) [[''in'', ''x'', ''a.sub''], [''in'', ''y'', ''a.sub'']]
          [[''in''] \<mapsto> Dir, [''in'', ''x''] \<mapsto> Dir, [''in'', ''y''] \<mapsto> Dir,
           [''in'', ''x'', ''a.sub''] \<mapsto> Text ''00:00:01,00:00:02\<newline>one'',
           [''in'', ''y'', ''a.sub''] \<mapsto> Text ''00:00:03,00:00:04\<newline>two'',
           [''out''] \<mapsto> Dir,
           [''out'', ''a.srt''] \<mapsto> Text ''1\<newline>00:00:03,000 --> 00:00:04,000\<newline>two\<newline>'']
        = ([[''in''] \<mapsto> Dir, [''in'', ''x''] \<mapsto> Dir, [''in'', ''y''] \<mapsto> Dir,
            [''in'', ''x'', ''a.sub''] \<mapsto> Text ''00:00:01,00:00:02\<newline>one'',
            [''in'', ''y'', ''a.sub''] \<mapsto> Text ''00:00:03,00:00:04\<newline>two'',
            [''out''] \<mapsto> Dir,
            [''out'', ''a.srt''] \<mapsto> Text ''1\<newline>00:00:03,000 --> 00:00:04,000\<newline>two\<newline>''],
           ms2, r2))"
  using two_run batch_conversion_idempotent [OF two_dir two_glob two_run two_glob_after two_order]
  by (rule conjI)

end
